theory Spec2Isabelle
  imports Complex_Main
begin

section \<open>Dense vectors and matrices\<close>

text \<open>
  The estimator stores its data in dynamically sized dense vectors and matrices of
  \<^verbatim>\<open>double\<close>. A vector is its length together with its coefficients, a matrix is its
  two dimensions together with its coefficients. Coefficients are real numbers, so every
  coefficient of the model is finite. The arithmetic of the correction is exact; the
  conditioning step is given a second time with every sum and quotient rounded, for
  what depends on the rounding of doubles.
  Reading or writing a coefficient does not check the index, as in the library built
  without assertions; \<open>well_formed\<close> below records the shapes the estimator keeps, under
  which its accesses are in range.
\<close>

record vec =
  v_size :: nat
  v_at :: "nat \<Rightarrow> real"

record mat =
  m_rows :: nat
  m_cols :: nat
  m_at :: "nat \<Rightarrow> nat \<Rightarrow> real"

definition setZero_v :: "nat \<Rightarrow> vec" where
  "setZero_v n = \<lparr>v_size = n, v_at = (\<lambda>i. 0)\<rparr>"

definition setZero_m :: "nat \<Rightarrow> nat \<Rightarrow> mat" where
  "setZero_m r c = \<lparr>m_rows = r, m_cols = c, m_at = (\<lambda>i j. 0)\<rparr>"

definition setIdentity :: "nat \<Rightarrow> nat \<Rightarrow> mat" where
  "setIdentity r c = \<lparr>m_rows = r, m_cols = c, m_at = (\<lambda>i j. if i = j then 1 else 0)\<rparr>"

definition set_coeff :: "mat \<Rightarrow> nat \<Rightarrow> nat \<Rightarrow> real \<Rightarrow> mat" where
  \<comment> \<open>\<^verbatim>\<open>M(i,j) = v\<close>\<close>
  "set_coeff M i j v = M\<lparr>m_at := (m_at M)(i := (m_at M i)(j := v))\<rparr>"

definition set_coeff_v :: "vec \<Rightarrow> nat \<Rightarrow> real \<Rightarrow> vec" where
  \<comment> \<open>\<^verbatim>\<open>v(i) = a\<close>\<close>
  "set_coeff_v v i a = v\<lparr>v_at := (v_at v)(i := a)\<rparr>"

definition set_col :: "mat \<Rightarrow> nat \<Rightarrow> mat \<Rightarrow> nat \<Rightarrow> mat" where
  \<comment> \<open>\<^verbatim>\<open>M.col(c) = N.col(d)\<close>\<close>
  "set_col M c N d =
     M\<lparr>m_at := (\<lambda>i j. if j = c \<and> i < m_rows M then m_at N i d else m_at M i j)\<rparr>"

definition transpose_m :: "mat \<Rightarrow> mat" where
  "transpose_m M = \<lparr>m_rows = m_cols M, m_cols = m_rows M, m_at = (\<lambda>i j. m_at M j i)\<rparr>"

definition mat_mul :: "mat \<Rightarrow> mat \<Rightarrow> mat" where
  "mat_mul A B =
     \<lparr>m_rows = m_rows A, m_cols = m_cols B,
      m_at = (\<lambda>i j. \<Sum>k\<leftarrow>[0..<m_cols A]. m_at A i k * m_at B k j)\<rparr>"

definition mat_vec :: "mat \<Rightarrow> vec \<Rightarrow> vec" where
  "mat_vec A v =
     \<lparr>v_size = m_rows A, v_at = (\<lambda>i. \<Sum>k\<leftarrow>[0..<m_cols A]. m_at A i k * v_at v k)\<rparr>"

definition add_assign_v :: "vec \<Rightarrow> vec \<Rightarrow> vec" where
  \<comment> \<open>\<^verbatim>\<open>u += w\<close>\<close>
  "add_assign_v u w = u\<lparr>v_at := (\<lambda>i. v_at u i + v_at w i)\<rparr>"

definition add_assign_m :: "mat \<Rightarrow> mat \<Rightarrow> mat" where
  \<comment> \<open>\<^verbatim>\<open>M += N\<close>\<close>
  "add_assign_m M N = M\<lparr>m_at := (\<lambda>i j. m_at M i j + m_at N i j)\<rparr>"

definition sub_assign_m :: "mat \<Rightarrow> mat \<Rightarrow> mat" where
  \<comment> \<open>\<^verbatim>\<open>M -= N\<close>\<close>
  "sub_assign_m M N = M\<lparr>m_at := (\<lambda>i j. m_at M i j - m_at N i j)\<rparr>"

definition div_assign_m :: "mat \<Rightarrow> real \<Rightarrow> mat" where
  \<comment> \<open>\<^verbatim>\<open>M /= a\<close>\<close>
  "div_assign_m M a = M\<lparr>m_at := (\<lambda>i j. m_at M i j / a)\<rparr>"

subsection \<open>The library's matrix inverse\<close>

text \<open>
  \<^verbatim>\<open>S_m.inverse()\<close> is a routine of the linear-algebra library. Its contract: the
  inverse of an invertible square matrix; on a singular matrix the result is undefined
  and nothing is raised. In doubles such a result holds infinities and NaN, which spread
  to every coefficient computed from it, or the rounding residue of a pivot that should
  have been zero. The model computes the inverse by cofactors where the determinant is
  not zero, and fixes no coefficient where it is zero: \<open>unspecified_m\<close> keeps the shape and
  leaves the coefficients to \<^term>\<open>undefined\<close>, of which nothing can be proved.
\<close>

definition unspecified_v :: "vec \<Rightarrow> vec" where
  \<comment> \<open>a vector of the same length whose coefficients the model does not fix\<close>
  "unspecified_v v = v\<lparr>v_at := undefined\<rparr>"

definition unspecified_m :: "mat \<Rightarrow> mat" where
  \<comment> \<open>a matrix of the same shape whose coefficients the model does not fix\<close>
  "unspecified_m M = M\<lparr>m_at := undefined\<rparr>"

definition minor_at :: "(nat \<Rightarrow> nat \<Rightarrow> real) \<Rightarrow> nat \<Rightarrow> nat \<Rightarrow> nat \<Rightarrow> nat \<Rightarrow> real" where
  \<comment> \<open>the coefficients left after deleting row \<open>i\<close> and column \<open>j\<close>\<close>
  "minor_at f i j = (\<lambda>r c. f (if r < i then r else Suc r) (if c < j then c else Suc c))"

fun det_at :: "nat \<Rightarrow> (nat \<Rightarrow> nat \<Rightarrow> real) \<Rightarrow> real" where
  "det_at 0 f = 1"
| "det_at (Suc n) f = (\<Sum>j\<leftarrow>[0..<Suc n]. (- 1) ^ j * f 0 j * det_at n (minor_at f 0 j))"

definition determinant :: "mat \<Rightarrow> real" where
  "determinant M = det_at (m_rows M) (m_at M)"

definition inverse_m :: "mat \<Rightarrow> mat" where
  "inverse_m M =
     (if determinant M = 0 then unspecified_m M
      else \<lparr>m_rows = m_rows M, m_cols = m_cols M,
             m_at = (\<lambda>i j. (- 1) ^ (i + j) * det_at (m_rows M - 1) (minor_at (m_at M) j i)
                             / determinant M)\<rparr>)"

section \<open>The estimator\<close>

text \<open>
  The fields of \<^verbatim>\<open>base_t\<close>; the single-letter members carry the prefix \<open>base_\<close>.
  \<^verbatim>\<open>m_observations\<close> is a \<^verbatim>\<open>std::map<uint32_t, double_t>\<close>: its entries are kept in
  ascending key order with unique keys, which is the order its iterators visit them in.
  The dimensions and observer indices are \<^verbatim>\<open>uint32_t\<close>; they are natural numbers here,
  and the one place where the width matters, the conversion to \<^verbatim>\<open>int\<close> in
  \<^verbatim>\<open>initialize_state\<close>, is written out.
\<close>

record base_t =
  n_x :: nat
  n_z :: nat
  base_x :: vec
  base_P :: mat
  base_Q :: mat
  base_R :: mat
  base_z :: vec
  base_S :: mat
  base_C :: mat
  t_xx :: mat
  m_observations :: "(nat \<times> real) list"

text \<open>
  Every failure of the source is a \<^verbatim>\<open>std::runtime_error\<close>. \<open>IndexError\<close> stands for the
  ones thrown on an index out of range, \<open>DimensionError\<close> for the ones thrown on a shape
  mismatch. No statement of the source throws on a failed inversion; \<open>NumericalError\<close> is
  there so that this can be said. A call either returns the new estimator (\<open>Inr\<close>) or
  throws (\<open>Inl\<close>), and then the estimator is as the throw left it.
\<close>

datatype error = IndexError | DimensionError | NumericalError

type_synonym outcome = "(error \<times> base_t) + base_t"

definition new_base_t :: "nat \<Rightarrow> nat \<Rightarrow> base_t" where
  \<comment> \<open>the constructor \<^verbatim>\<open>base_t(n_variables, n_observers)\<close>\<close>
  "new_base_t n_variables n_observers =
     \<lparr>n_x = n_variables, n_z = n_observers,
      base_x = setZero_v n_variables,
      base_P = setIdentity n_variables n_variables,
      base_Q = setIdentity n_variables n_variables,
      base_R = setIdentity n_observers n_observers,
      base_z = setZero_v n_observers,
      base_S = setZero_m n_observers n_observers,
      base_C = setZero_m n_variables n_observers,
      t_xx = setZero_m n_variables n_variables,
      m_observations = []\<rparr>"

subsection \<open>The observation buffer\<close>

fun map_assign :: "nat \<Rightarrow> real \<Rightarrow> (nat \<times> real) list \<Rightarrow> (nat \<times> real) list" where
  \<comment> \<open>\<^verbatim>\<open>m[k] = v\<close> on an ordered map: replace the value at \<open>k\<close>, or insert in key order\<close>
  "map_assign k v [] = [(k, v)]"
| "map_assign k v ((k', v') # m) =
     (if k < k' then (k, v) # (k', v') # m
      else if k = k' then (k, v) # m
      else (k', v') # map_assign k v m)"

definition new_observation :: "base_t \<Rightarrow> nat \<Rightarrow> real \<Rightarrow> outcome" where
  "new_observation st observer_index observation =
     (if \<not> observer_index < n_z st then Inl (IndexError, st)
      else Inr (st\<lparr>m_observations :=
                     map_assign observer_index observation (m_observations st)\<rparr>))"

definition has_observations :: "base_t \<Rightarrow> bool" where
  "has_observations st \<longleftrightarrow> \<not> (m_observations st = [])"

definition has_observation :: "base_t \<Rightarrow> nat \<Rightarrow> bool" where
  "has_observation st observer_index \<longleftrightarrow>
     length (filter (\<lambda>e. fst e = observer_index) (m_observations st)) \<noteq> 0"

subsection \<open>The masked correction\<close>

definition fill_S_col :: "mat \<Rightarrow> (nat \<times> real) list \<Rightarrow> nat \<Rightarrow> nat \<Rightarrow> mat \<Rightarrow> mat" where
  \<comment> \<open>the inner loop over \<open>i\<close>: column \<open>m_j\<close> of \<open>S_m\<close>, with \<open>m_i\<close> counting the rows\<close>
  "fill_S_col S_full obs j_first m_j S_m =
     fst (fold (\<lambda>i (M, m_i). (set_coeff M m_i m_j (m_at S_full (fst i) j_first), Suc m_i))
            obs (S_m, 0))"

definition masked_S_C :: "base_t \<Rightarrow> mat \<times> mat" where
  \<comment> \<open>the outer loop over \<open>j\<close>; \<open>S_m\<close> and \<open>C_m\<close> start with unset coefficients (zero here),
      all of which the loop writes\<close>
  "masked_S_C st =
     (let obs = m_observations st; n_o = length obs
      in (\<lambda>(S_m, C_m, m_j). (S_m, C_m))
           (fold (\<lambda>j (S_m, C_m, m_j).
                    (fill_S_col (base_S st) obs (fst j) m_j S_m,
                     set_col C_m m_j (base_C st) (fst j),
                     Suc m_j))
              obs (setZero_m n_o n_o, setZero_m (n_x st) n_o, 0)))"

definition masked_S :: "base_t \<Rightarrow> mat" where
  "masked_S st = fst (masked_S_C st)"

definition masked_C :: "base_t \<Rightarrow> mat" where
  "masked_C st = snd (masked_S_C st)"

definition from_inverse_m :: "base_t \<Rightarrow> mat \<Rightarrow> mat" where
  \<comment> \<open>a matrix computed from \<^verbatim>\<open>S_m.inverse()\<close>: not specified when \<open>S_m\<close> is singular\<close>
  "from_inverse_m st M = (if determinant (masked_S st) = 0 then unspecified_m M else M)"

definition from_inverse_v :: "base_t \<Rightarrow> vec \<Rightarrow> vec" where
  \<comment> \<open>a vector computed from \<^verbatim>\<open>S_m.inverse()\<close>: not specified when \<open>S_m\<close> is singular\<close>
  "from_inverse_v st v = (if determinant (masked_S st) = 0 then unspecified_v v else v)"

definition kalman_gain :: "base_t \<Rightarrow> mat" where
  \<comment> \<open>\<^verbatim>\<open>K_m = C_m * S_m.inverse()\<close>\<close>
  "kalman_gain st = from_inverse_m st (mat_mul (masked_C st) (inverse_m (masked_S st)))"

definition innovation :: "base_t \<Rightarrow> vec" where
  \<comment> \<open>\<^verbatim>\<open>zd_m\<close>: actual minus predicted, in buffer order\<close>
  "innovation st =
     fst (fold (\<lambda>observation (zd_m, m_i).
                  (set_coeff_v zd_m m_i (snd observation - v_at (base_z st) (fst observation)),
                   Suc m_i))
            (m_observations st) (setZero_v (length (m_observations st)), 0))"

definition update_state :: "base_t \<Rightarrow> vec" where
  \<comment> \<open>\<^verbatim>\<open>x += K_m * zd_m\<close>\<close>
  "update_state st =
     from_inverse_v st
       (add_assign_v (base_x st) (mat_vec (kalman_gain st) (innovation st)))"

definition update_covariance :: "base_t \<Rightarrow> mat" where
  \<comment> \<open>\<^verbatim>\<open>P -= K_m * S_m * K_m.transpose()\<close>\<close>
  "update_covariance st =
     from_inverse_m st
       (sub_assign_m (base_P st)
          (mat_mul (mat_mul (kalman_gain st) (masked_S st)) (transpose_m (kalman_gain st))))"

definition force_symmetric :: "mat \<Rightarrow> mat" where
  \<comment> \<open>\<^verbatim>\<open>t_xx = P.transpose(); P += t_xx; P /= 2.0\<close>\<close>
  "force_symmetric M = div_assign_m (add_assign_m M (transpose_m M)) 2"

definition clean_entry :: "nat \<Rightarrow> nat \<Rightarrow> mat \<times> real \<Rightarrow> mat \<times> real" where
  \<comment> \<open>the body of the loop over \<open>j\<close>\<close>
  "clean_entry i j = (\<lambda>(M, row_sum).
     if i \<noteq> j then
       (if m_at M i j < 1 / 1000 then (set_coeff M i j 0, row_sum)
        else (M, row_sum + \<bar>m_at M i j\<bar>))
     else (M, row_sum))"

definition clean_row :: "nat \<Rightarrow> nat \<Rightarrow> mat \<Rightarrow> mat" where
  \<comment> \<open>the body of the loop over \<open>i\<close>\<close>
  "clean_row n i M =
     (let (M', row_sum) = fold (clean_entry i) [0..<n] (M, 0)
      in if m_at M' i i \<le> row_sum then set_coeff M' i i (row_sum + 1 / 1000) else M')"

definition force_full_rank :: "nat \<Rightarrow> mat \<Rightarrow> mat" where
  "force_full_rank n M = fold (clean_row n) [0..<n] M"

definition masked_kalman_update :: "base_t \<Rightarrow> outcome" where
  "masked_kalman_update st =
     (let x' = update_state st;
          P' = update_covariance st
      in Inr (st\<lparr>base_x := x',
                 base_P := force_full_rank (n_x st) (force_symmetric P'),
                 t_xx := transpose_m P',
                 m_observations := []\<rparr>))"

subsection \<open>The conditioning step in double arithmetic\<close>

text \<open>
  Lines 104 to 136 once more, for what depends on rounding: \<open>rnd\<close> rounds the exact
  result of a sum or a quotient to a double and \<open>eps\<close> is the double that the literal
  \<^verbatim>\<open>1E-3\<close> denotes. Taking an absolute value, comparing and copying are exact in
  doubles. \<open>finish_update\<close> runs these lines on the state vector and the covariance that
  the lines before them computed, whatever they are. With the identity for \<open>rnd\<close> and
  \<open>1/1000\<close> for \<open>eps\<close> these are the definitions above.
\<close>

definition add_assign_m_rnd :: "(real \<Rightarrow> real) \<Rightarrow> mat \<Rightarrow> mat \<Rightarrow> mat" where
  \<comment> \<open>\<^verbatim>\<open>M += N\<close>\<close>
  "add_assign_m_rnd rnd M N = M\<lparr>m_at := (\<lambda>i j. rnd (m_at M i j + m_at N i j))\<rparr>"

definition div_assign_m_rnd :: "(real \<Rightarrow> real) \<Rightarrow> mat \<Rightarrow> real \<Rightarrow> mat" where
  \<comment> \<open>\<^verbatim>\<open>M /= a\<close>\<close>
  "div_assign_m_rnd rnd M a = M\<lparr>m_at := (\<lambda>i j. rnd (m_at M i j / a))\<rparr>"

definition force_symmetric_rnd :: "(real \<Rightarrow> real) \<Rightarrow> mat \<Rightarrow> mat" where
  \<comment> \<open>\<^verbatim>\<open>t_xx = P.transpose(); P += t_xx; P /= 2.0\<close>\<close>
  "force_symmetric_rnd rnd M =
     div_assign_m_rnd rnd (add_assign_m_rnd rnd M (transpose_m M)) 2"

definition clean_entry_rnd ::
  "(real \<Rightarrow> real) \<Rightarrow> real \<Rightarrow> nat \<Rightarrow> nat \<Rightarrow> mat \<times> real \<Rightarrow> mat \<times> real" where
  \<comment> \<open>the body of the loop over \<open>j\<close>\<close>
  "clean_entry_rnd rnd eps i j = (\<lambda>(M, row_sum).
     if i \<noteq> j then
       (if m_at M i j < eps then (set_coeff M i j 0, row_sum)
        else (M, rnd (row_sum + \<bar>m_at M i j\<bar>)))
     else (M, row_sum))"

definition clean_row_rnd :: "(real \<Rightarrow> real) \<Rightarrow> real \<Rightarrow> nat \<Rightarrow> nat \<Rightarrow> mat \<Rightarrow> mat" where
  \<comment> \<open>the body of the loop over \<open>i\<close>\<close>
  "clean_row_rnd rnd eps n i M =
     (let (M', row_sum) = fold (clean_entry_rnd rnd eps i) [0..<n] (M, 0)
      in if m_at M' i i \<le> row_sum then set_coeff M' i i (rnd (row_sum + eps)) else M')"

definition force_full_rank_rnd :: "(real \<Rightarrow> real) \<Rightarrow> real \<Rightarrow> nat \<Rightarrow> mat \<Rightarrow> mat" where
  "force_full_rank_rnd rnd eps n M = fold (clean_row_rnd rnd eps n) [0..<n] M"

definition finish_update ::
  "(real \<Rightarrow> real) \<Rightarrow> real \<Rightarrow> vec \<Rightarrow> mat \<Rightarrow> base_t \<Rightarrow> outcome" where
  \<comment> \<open>\<open>x'\<close> and \<open>P'\<close> are \<open>x\<close> and \<open>P\<close> as line 102 leaves them\<close>
  "finish_update rnd eps x' P' st =
     Inr (st\<lparr>base_x := x',
              base_P := force_full_rank_rnd rnd eps (n_x st) (force_symmetric_rnd rnd P'),
              t_xx := transpose_m P',
              m_observations := []\<rparr>)"

subsection \<open>Access\<close>

definition set_state :: "base_t \<Rightarrow> nat \<Rightarrow> real \<Rightarrow> outcome" where
  "set_state st index v =
     (if index \<ge> n_x st then Inl (IndexError, st)
      else Inr (st\<lparr>base_x := set_coeff_v (base_x st) index v\<rparr>))"

definition set_covariance :: "base_t \<Rightarrow> nat \<Rightarrow> nat \<Rightarrow> real \<Rightarrow> outcome" where
  "set_covariance st index_a index_b v =
     (if index_a \<ge> n_x st \<or> index_b \<ge> n_x st then Inl (IndexError, st)
      else Inr (st\<lparr>base_P := set_coeff (base_P st) index_a index_b v\<rparr>))"

definition static_cast_int :: "nat \<Rightarrow> int" where
  \<comment> \<open>\<^verbatim>\<open>static_cast<int>\<close> of a \<^verbatim>\<open>uint32_t\<close>: the value modulo \<open>2^32\<close>, read as signed\<close>
  "static_cast_int n =
     (if n mod 2 ^ 32 < 2 ^ 31 then int (n mod 2 ^ 32) else int (n mod 2 ^ 32) - 2 ^ 32)"

definition initialize_state :: "base_t \<Rightarrow> vec \<Rightarrow> mat \<Rightarrow> outcome" where
  "initialize_state st x0 P0 =
     (if int (v_size x0) \<noteq> static_cast_int (n_x st) then Inl (DimensionError, st)
      else if int (m_rows P0) \<noteq> static_cast_int (n_x st)
              \<or> int (m_cols P0) \<noteq> static_cast_int (n_x st) then Inl (DimensionError, st)
      else Inr (st\<lparr>base_x := x0, base_P := P0\<rparr>))"

section \<open>Reading an outcome\<close>

definition raised :: "outcome \<Rightarrow> error option" where
  "raised r = (case r of Inl (e, st) \<Rightarrow> Some e | Inr st \<Rightarrow> None)"

definition state_after :: "outcome \<Rightarrow> base_t" where
  \<comment> \<open>the estimator once the call has returned or thrown\<close>
  "state_after r = (case r of Inl (e, st) \<Rightarrow> st | Inr st \<Rightarrow> st)"

section \<open>Closed forms of the conditioning loops\<close>

definition kept_sum :: "nat \<Rightarrow> mat \<Rightarrow> nat \<Rightarrow> real" where
  \<comment> \<open>the value of \<^verbatim>\<open>row_sum\<close> after \<open>k\<close> rounds of the loop over \<open>j\<close> in row \<open>i\<close>\<close>
  "kept_sum k M i =
     (\<Sum>b\<leftarrow>[0..<k]. if b \<noteq> i \<and> \<not> m_at M i b < 1 / 1000 then \<bar>m_at M i b\<bar> else 0)"

definition conditioned_at :: "nat \<Rightarrow> mat \<Rightarrow> nat \<Rightarrow> nat \<Rightarrow> real" where
  \<comment> \<open>the coefficient \<open>(a, b)\<close> once row \<open>a\<close> has been through the loop over \<open>i\<close>\<close>
  "conditioned_at n M a b =
     (if a = b then
        (if m_at M a a \<le> kept_sum n M a then kept_sum n M a + 1 / 1000 else m_at M a a)
      else if b < n \<and> m_at M a b < 1 / 1000 then 0
      else m_at M a b)"

definition offdiag_abs_sum :: "nat \<Rightarrow> mat \<Rightarrow> nat \<Rightarrow> real" where
  \<comment> \<open>the sum of the absolute values of the off-diagonal coefficients of row \<open>i\<close>\<close>
  "offdiag_abs_sum n M i = (\<Sum>b\<leftarrow>[0..<n]. if b = i then 0 else \<bar>m_at M i b\<bar>)"

definition rounding :: "(real \<Rightarrow> real) \<Rightarrow> bool" where
  \<comment> \<open>what is used of rounding to a double: it keeps the order, leaves a double alone
      and maps zero to zero\<close>
  "rounding rnd \<longleftrightarrow>
     (\<forall>x y. x \<le> y \<longrightarrow> rnd x \<le> rnd y) \<and> (\<forall>x. rnd (rnd x) = rnd x) \<and> rnd 0 = 0"

definition row_sum_rnd :: "(real \<Rightarrow> real) \<Rightarrow> nat \<Rightarrow> mat \<Rightarrow> nat \<Rightarrow> real" where
  \<comment> \<open>the absolute values of the off-diagonal coefficients of row \<open>i\<close>, added from left to
      right with every sum rounded\<close>
  "row_sum_rnd rnd n M i =
     fold (\<lambda>b s. if b = i then s else rnd (s + \<bar>m_at M i b\<bar>)) [0..<n] 0"

definition kept_sum_rnd :: "(real \<Rightarrow> real) \<Rightarrow> real \<Rightarrow> nat \<Rightarrow> mat \<Rightarrow> nat \<Rightarrow> real" where
  \<comment> \<open>the value of \<^verbatim>\<open>row_sum\<close> after \<open>k\<close> rounds of the loop over \<open>j\<close> in row \<open>i\<close>\<close>
  "kept_sum_rnd rnd eps k M i =
     fold (\<lambda>b s. if b \<noteq> i \<and> \<not> m_at M i b < eps then rnd (s + \<bar>m_at M i b\<bar>) else s)
       [0..<k] 0"

definition conditioned_at_rnd ::
  "(real \<Rightarrow> real) \<Rightarrow> real \<Rightarrow> nat \<Rightarrow> mat \<Rightarrow> nat \<Rightarrow> nat \<Rightarrow> real" where
  \<comment> \<open>the coefficient \<open>(a, b)\<close> once row \<open>a\<close> has been through the loop over \<open>i\<close>\<close>
  "conditioned_at_rnd rnd eps n M a b =
     (if a = b then
        (if m_at M a a \<le> kept_sum_rnd rnd eps n M a
         then rnd (kept_sum_rnd rnd eps n M a + eps) else m_at M a a)
      else if b < n \<and> m_at M a b < eps then 0
      else m_at M a b)"

definition ascending_keys :: "(nat \<times> real) list \<Rightarrow> bool" where
  \<comment> \<open>the invariant of an ordered map: strictly ascending keys\<close>
  "ascending_keys m \<longleftrightarrow> sorted_wrt (<) (map fst m)"

definition well_formed :: "base_t \<Rightarrow> bool" where
  \<comment> \<open>the shapes the constructor sets up, and a buffer that is an ordered map over the
      observer indices\<close>
  "well_formed st \<longleftrightarrow>
     v_size (base_x st) = n_x st
     \<and> m_rows (base_P st) = n_x st \<and> m_cols (base_P st) = n_x st
     \<and> v_size (base_z st) = n_z st
     \<and> m_rows (base_S st) = n_z st \<and> m_cols (base_S st) = n_z st
     \<and> m_rows (base_C st) = n_x st \<and> m_cols (base_C st) = n_z st
     \<and> ascending_keys (m_observations st)
     \<and> (\<forall>k\<in>set (map fst (m_observations st)). k < n_z st)"

section \<open>Concrete estimators\<close>

text \<open>
  Each is reached through the calls of the interface; the derived estimator writes \<open>C\<close>
  and \<open>S\<close> directly.
\<close>

definition with_unit_S :: "base_t \<Rightarrow> base_t" where
  \<comment> \<open>the derived estimator's write \<^verbatim>\<open>S(0,0) = 1\<close>\<close>
  "with_unit_S st = st\<lparr>base_S := set_coeff (base_S st) 0 0 1\<rparr>"

definition scenario_state :: base_t where
  \<comment> \<open>\<open>n_x = 2\<close>, \<open>n_z = 1\<close>, \<open>C = [[1],[0]]\<close>, \<open>S = [[1]]\<close>, the rest as constructed\<close>
  "scenario_state =
     with_unit_S ((new_base_t 2 1)\<lparr>base_C := set_coeff (base_C (new_base_t 2 1)) 0 0 1\<rparr>)"

definition scenario_pending :: base_t where
  "scenario_pending = state_after (new_observation scenario_state 0 1)"

definition two_observers :: base_t where
  \<comment> \<open>a fresh estimator with readings pending at observers 1 and 3\<close>
  "two_observers =
     state_after (new_observation (state_after (new_observation (new_base_t 2 4) 3 7)) 1 5)"

definition negative_cov_state :: base_t where
  \<comment> \<open>\<open>P = [[1,-5],[-5,1]]\<close>, \<open>S = [[1]]\<close>, \<open>C\<close> zero, one reading pending\<close>
  "negative_cov_state =
     state_after (new_observation
       (state_after (set_covariance
          (state_after (set_covariance (with_unit_S (new_base_t 2 1)) 0 1 (- 5)))
          1 0 (- 5)))
       0 1)"

definition small_margin_state :: base_t where
  \<comment> \<open>\<open>P = [[1/2048]]\<close>, \<open>S = [[1]]\<close>, \<open>C\<close> zero, one reading pending\<close>
  "small_margin_state =
     state_after (new_observation
       (state_after (set_covariance (with_unit_S (new_base_t 1 1)) 0 0 (1 / 2048)))
       0 1)"

definition singular_state :: base_t where
  \<comment> \<open>as constructed, so \<open>S = [[0]]\<close>, with one reading pending\<close>
  "singular_state = state_after (new_observation (new_base_t 1 1) 0 1)"

definition zero_cov_state :: base_t where
  \<comment> \<open>\<open>P = [[0]]\<close> and an empty buffer\<close>
  "zero_cov_state = state_after (set_covariance (new_base_t 1 1) 0 0 0)"

definition coarse :: "real \<Rightarrow> real" where
  \<comment> \<open>a rounding that keeps every number below 1000 in magnitude and only the integers
      from there on, as doubles keep only the integers from \<open>2^52\<close> on\<close>
  "coarse x = (if \<bar>x\<bar> < 1000 then x else of_int \<lfloor>x\<rfloor>)"

definition wide_cov :: mat where
  \<comment> \<open>\<open>[[1,2000],[2000,1]]\<close>\<close>
  "wide_cov = set_coeff (set_coeff (setIdentity 2 2) 0 1 2000) 1 0 2000"

section \<open>Construction\<close>

lemmas eigen_defs =
  setZero_v_def setZero_m_def setIdentity_def set_coeff_def set_coeff_v_def set_col_def
  transpose_m_def mat_mul_def mat_vec_def add_assign_v_def add_assign_m_def
  sub_assign_m_def div_assign_m_def

lemmas update_defs =
  masked_kalman_update_def update_state_def update_covariance_def kalman_gain_def
  inverse_m_def determinant_def minor_at_def masked_C_def masked_S_def masked_S_C_def
  fill_S_col_def innovation_def force_symmetric_def from_inverse_m_def from_inverse_v_def
  Let_def

lemmas loop_defs = force_full_rank_def clean_row_def clean_entry_def

lemmas read_defs = raised_def state_after_def has_observations_def has_observation_def

lemmas state_defs =
  scenario_state_def scenario_pending_def two_observers_def negative_cov_state_def
  small_margin_state_def singular_state_def zero_cov_state_def with_unit_S_def
  new_base_t_def new_observation_def set_covariance_def state_after_def

text \<open>
  Claim C9: a freshly constructed estimator has \<open>P\<close>, \<open>Q\<close> and \<open>R\<close> equal to identity
  matrices (\<open>P\<close> and \<open>Q\<close> of size \<open>n_x\<close> by \<open>n_x\<close>, \<open>R\<close> of size \<open>n_z\<close> by \<open>n_z\<close>), \<open>x\<close> the zero
  vector of length \<open>n_x\<close>, \<open>z\<close> the zero vector of length \<open>n_z\<close>, \<open>C\<close> and \<open>S\<close> zero matrices,
  and \<open>has_observations\<close> is false. It holds for all dimensions, the positive ones among
  them.
\<close>

theorem fresh_estimator:
  "n_x (new_base_t n m) = n \<and> n_z (new_base_t n m) = m
   \<and> m_rows (base_P (new_base_t n m)) = n \<and> m_cols (base_P (new_base_t n m)) = n
   \<and> m_rows (base_Q (new_base_t n m)) = n \<and> m_cols (base_Q (new_base_t n m)) = n
   \<and> m_rows (base_R (new_base_t n m)) = m \<and> m_cols (base_R (new_base_t n m)) = m
   \<and> (\<forall>i j. m_at (base_P (new_base_t n m)) i j = (if i = j then 1 else 0))
   \<and> (\<forall>i j. m_at (base_Q (new_base_t n m)) i j = (if i = j then 1 else 0))
   \<and> (\<forall>i j. m_at (base_R (new_base_t n m)) i j = (if i = j then 1 else 0))
   \<and> v_size (base_x (new_base_t n m)) = n \<and> (\<forall>i. v_at (base_x (new_base_t n m)) i = 0)
   \<and> v_size (base_z (new_base_t n m)) = m \<and> (\<forall>i. v_at (base_z (new_base_t n m)) i = 0)
   \<and> m_rows (base_C (new_base_t n m)) = n \<and> m_cols (base_C (new_base_t n m)) = m
   \<and> (\<forall>i j. m_at (base_C (new_base_t n m)) i j = 0)
   \<and> m_rows (base_S (new_base_t n m)) = m \<and> m_cols (base_S (new_base_t n m)) = m
   \<and> (\<forall>i j. m_at (base_S (new_base_t n m)) i j = 0)
   \<and> \<not> has_observations (new_base_t n m)"
  by (simp add: new_base_t_def setIdentity_def setZero_v_def setZero_m_def has_observations_def)

section \<open>The observation buffer\<close>

lemma map_assign_keys:
  "set (map fst (map_assign k v m)) = insert k (set (map fst m))"
proof (induction m)
  case Nil
  show ?case by simp
next
  case (Cons e m)
  obtain k' v' where e: "e = (k', v')" by (cases e)
  show ?case
    using Cons.IH by (simp add: e insert_commute)
qed

lemma map_assign_nonempty: "map_assign k v m \<noteq> []"
proof (cases m)
  case Nil
  then show ?thesis by simp
next
  case (Cons e m')
  obtain k' v' where e: "e = (k', v')" by (cases e)
  show ?thesis by (simp add: Cons e)
qed

lemma map_assign_above:
  assumes "k' < k" and "\<forall>y\<in>set m. k' < fst y"
  shows "\<forall>y\<in>set (map_assign k v m). k' < fst y"
proof
  fix y
  assume "y \<in> set (map_assign k v m)"
  then have "fst y \<in> set (map fst (map_assign k v m))"
    by simp
  then have "fst y = k \<or> fst y \<in> set (map fst m)"
    by (simp only: map_assign_keys insert_iff)
  then show "k' < fst y"
    using assms by auto
qed

lemma map_assign_ascending:
  "ascending_keys m \<Longrightarrow> ascending_keys (map_assign k v m)"
  unfolding ascending_keys_def
proof (induction m)
  case Nil
  show ?case by simp
next
  case (Cons e m)
  obtain k' v' where e: "e = (k', v')" by (cases e)
  from Cons.prems have tail: "sorted_wrt (<) (map fst m)" and
    below: "\<forall>y\<in>set m. k' < fst y"
    by (simp_all add: e)
  show ?case
  proof (cases "k < k'")
    case True
    with Cons.prems show ?thesis by (auto simp add: e)
  next
    case False
    note nless = this
    show ?thesis
    proof (cases "k = k'")
      case True
      with Cons.prems show ?thesis by (simp add: e)
    next
      case False
      with nless have "k' < k" by simp
      then have "\<forall>y\<in>set (map_assign k v m). k' < fst y"
        using below by (rule map_assign_above)
      with False nless Cons.IH [OF tail] show ?thesis
        by (simp add: e)
    qed
  qed
qed

lemma map_assign_other_entries:
  "filter (\<lambda>e. fst e \<noteq> k) (map_assign k v m) = filter (\<lambda>e. fst e \<noteq> k) m"
  by (induction m) auto

lemma map_assign_own_entry:
  "ascending_keys m \<Longrightarrow> filter (\<lambda>e. fst e = k) (map_assign k v m) = [(k, v)]"
  unfolding ascending_keys_def
proof (induction m)
  case Nil
  show ?case by simp
next
  case (Cons e m)
  obtain k' v' where e: "e = (k', v')" by (cases e)
  from Cons.prems have tail: "sorted_wrt (<) (map fst m)" and
    below: "\<forall>y\<in>set m. k' < fst y"
    by (simp_all add: e)
  have none: "filter (\<lambda>e. fst e = k) m = []" if "k \<le> k'"
    using that below by (auto simp add: filter_empty_conv)
  show ?case
    using Cons.IH [OF tail] none by (auto simp add: e)
qed

lemma map_assign_twice:
  "map_assign k w (map_assign k v m) = map_assign k w m"
  by (induction m) auto

text \<open>
  Claim C7: \<open>new_observation\<close> raises an \<open>IndexError\<close> if and only if
  \<open>observer_index \<ge> n_z\<close>, and then mutates nothing. With a valid index the value is
  stored: the buffer then holds exactly one entry for that index, carrying the value,
  the entries of the other indices are untouched, and \<open>has_observation\<close> of the index
  and \<open>has_observations\<close> are true. A second call with the same index overwrites the
  first value: the buffer is the one the second call alone would have produced, with
  the single entry for the index carrying the second value. The buffer is an ordered
  map, so its keys ascend.
\<close>

theorem new_observation_insert_or_replace:
  assumes "ascending_keys (m_observations st)"
  shows "(raised (new_observation st k v) = Some IndexError \<longleftrightarrow> k \<ge> n_z st)
    \<and> (k \<ge> n_z st \<longrightarrow> new_observation st k v = Inl (IndexError, st))
    \<and> (k < n_z st \<longrightarrow>
         raised (new_observation st k v) = None
         \<and> filter (\<lambda>e. fst e = k) (m_observations (state_after (new_observation st k v)))
             = [(k, v)]
         \<and> filter (\<lambda>e. fst e \<noteq> k) (m_observations (state_after (new_observation st k v)))
             = filter (\<lambda>e. fst e \<noteq> k) (m_observations st)
         \<and> ascending_keys (m_observations (state_after (new_observation st k v)))
         \<and> has_observation (state_after (new_observation st k v)) k
         \<and> has_observations (state_after (new_observation st k v))
         \<and> new_observation (state_after (new_observation st k v)) k w
             = new_observation st k w
         \<and> filter (\<lambda>e. fst e = k)
              (m_observations
                 (state_after (new_observation (state_after (new_observation st k v)) k w)))
             = [(k, w)]
         \<and> has_observation
              (state_after (new_observation (state_after (new_observation st k v)) k w)) k
         \<and> has_observations
              (state_after (new_observation (state_after (new_observation st k v)) k w)))"
proof -
  have own: "filter (\<lambda>e. fst e = k) (map_assign k u (m_observations st)) = [(k, u)]" for u
    using assms by (rule map_assign_own_entry)
  have asc: "ascending_keys (map_assign k v (m_observations st))"
    using assms by (rule map_assign_ascending)
  show ?thesis
    by (simp add: new_observation_def raised_def state_after_def has_observation_def
        has_observations_def own asc map_assign_other_entries map_assign_twice
        map_assign_nonempty)
qed

theorem new_observation_insert_or_replace_witness:
  "ascending_keys (m_observations two_observers)
   \<and> new_observation two_observers 4 9 = Inl (IndexError, two_observers)
   \<and> m_observations (state_after (new_observation two_observers 3 9)) = [(1, 5), (3, 9)]
   \<and> m_observations (state_after (new_observation two_observers 2 9))
       = [(1, 5), (2, 9), (3, 7)]
   \<and> filter (\<lambda>e. fst e = 2)
        (m_observations
           (state_after (new_observation (state_after (new_observation two_observers 2 9)) 2 8)))
       = [(2, 8)]"
proof -
  have asc: "ascending_keys (m_observations two_observers)"
    by (simp add: state_defs ascending_keys_def)
  have nz: "n_z two_observers = 4"
    by (simp add: state_defs)
  from new_observation_insert_or_replace [OF asc, of 4 9]
  have "new_observation two_observers 4 9 = Inl (IndexError, two_observers)"
    by (simp add: nz)
  moreover have lt: "2 < n_z two_observers"
    by (simp add: nz)
  from new_observation_insert_or_replace [OF asc, of 2 9 8] lt
  have "filter (\<lambda>e. fst e = 2)
          (m_observations
             (state_after (new_observation (state_after (new_observation two_observers 2 9)) 2 8)))
        = [(2, 8)]"
    by blast
  moreover note this
  moreover have
    "m_observations (state_after (new_observation two_observers 3 9)) = [(1, 5), (3, 9)]"
    "m_observations (state_after (new_observation two_observers 2 9)) = [(1, 5), (2, 9), (3, 7)]"
    by (simp_all add: state_defs)
  ultimately show ?thesis
    using asc by simp
qed

section \<open>Reinitialisation\<close>

lemma static_cast_int_small: "n < 2 ^ 31 \<Longrightarrow> static_cast_int n = int n"
  by (simp add: static_cast_int_def)

text \<open>
  Claim C6: \<open>initialize_state\<close> raises a \<open>DimensionError\<close> exactly when the length of
  \<open>x0\<close> differs from \<open>n_x\<close> or \<open>P0\<close> is not \<open>n_x\<close> by \<open>n_x\<close>; on such a failure the
  estimator is as it was, on success \<open>x\<close> and \<open>P\<close> are \<open>x0\<close> and \<open>P0\<close>, and in either
  case \<open>Q\<close>, \<open>R\<close>, \<open>C\<close>, \<open>z\<close>, \<open>S\<close> and the observation buffer are what they were. The
  source compares the sizes with \<^verbatim>\<open>static_cast<int>(n_x)\<close>, which is \<open>n_x\<close> itself below
  \<open>2^31\<close>; an estimator holds an \<open>n_x\<close> by \<open>n_x\<close> matrix of doubles, so its \<open>n_x\<close> is far
  below that.
\<close>

theorem initialize_state_checked:
  assumes "n_x st < 2 ^ 31"
  shows "(raised (initialize_state st x0 P0) = Some DimensionError
           \<longleftrightarrow> v_size x0 \<noteq> n_x st \<or> m_rows P0 \<noteq> n_x st \<or> m_cols P0 \<noteq> n_x st)
    \<and> (raised (initialize_state st x0 P0) = None
           \<longleftrightarrow> v_size x0 = n_x st \<and> m_rows P0 = n_x st \<and> m_cols P0 = n_x st)
    \<and> (raised (initialize_state st x0 P0) = Some DimensionError
           \<longrightarrow> initialize_state st x0 P0 = Inl (DimensionError, st))
    \<and> (raised (initialize_state st x0 P0) = None
           \<longrightarrow> base_x (state_after (initialize_state st x0 P0)) = x0
             \<and> base_P (state_after (initialize_state st x0 P0)) = P0)
    \<and> base_Q (state_after (initialize_state st x0 P0)) = base_Q st
    \<and> base_R (state_after (initialize_state st x0 P0)) = base_R st
    \<and> base_C (state_after (initialize_state st x0 P0)) = base_C st
    \<and> base_z (state_after (initialize_state st x0 P0)) = base_z st
    \<and> base_S (state_after (initialize_state st x0 P0)) = base_S st
    \<and> m_observations (state_after (initialize_state st x0 P0)) = m_observations st"
  by (simp add: initialize_state_def raised_def state_after_def
      static_cast_int_small [OF assms])

text \<open>
  The theorem at an estimator with \<open>n_x = 2\<close> and two pending readings: a vector of
  length 3 and a 2 by 3 matrix are refused, a 2 by 2 matrix is taken.
\<close>

theorem initialize_state_checked_witness:
  "n_x two_observers < 2 ^ 31
   \<and> initialize_state two_observers (setZero_v 3) (setIdentity 2 2)
       = Inl (DimensionError, two_observers)
   \<and> initialize_state two_observers (setZero_v 2) (setIdentity 2 3)
       = Inl (DimensionError, two_observers)
   \<and> base_P (state_after (initialize_state two_observers (setZero_v 2) (setZero_m 2 2)))
       = setZero_m 2 2
   \<and> m_observations (state_after (initialize_state two_observers (setZero_v 2) (setZero_m 2 2)))
       = [(1, 5), (3, 7)]"
proof -
  have small: "n_x two_observers < 2 ^ 31"
    by (simp add: state_defs)
  have nx: "n_x two_observers = 2"
    by (simp add: state_defs)
  have obs: "m_observations two_observers = [(1, 5), (3, 7)]"
    by (simp add: state_defs)
  have "initialize_state two_observers (setZero_v 3) (setIdentity 2 2)
       = Inl (DimensionError, two_observers)"
    using initialize_state_checked [OF small, of "setZero_v 3" "setIdentity 2 2"]
    by (simp add: nx setZero_v_def setIdentity_def)
  moreover have "initialize_state two_observers (setZero_v 2) (setIdentity 2 3)
       = Inl (DimensionError, two_observers)"
    using initialize_state_checked [OF small, of "setZero_v 2" "setIdentity 2 3"]
    by (simp add: nx setZero_v_def setIdentity_def)
  moreover have
    "base_P (state_after (initialize_state two_observers (setZero_v 2) (setZero_m 2 2)))
       = setZero_m 2 2
     \<and> m_observations
          (state_after (initialize_state two_observers (setZero_v 2) (setZero_m 2 2)))
       = [(1, 5), (3, 7)]"
    using initialize_state_checked [OF small, of "setZero_v 2" "setZero_m 2 2"]
    by (simp add: nx obs setZero_v_def setZero_m_def)
  ultimately show ?thesis using small by simp
qed

section \<open>The reduced matrices\<close>

text \<open>
  What the loops over the buffer build: \<open>S_m\<close> is the submatrix of \<open>S\<close> at the pending
  indices, \<open>C_m\<close> holds the columns of \<open>C\<close> at the pending indices, and \<open>zd_m\<close> the
  differences between the readings and the predictions, all in buffer order.
\<close>

lemma empty_range:
  "(A \<and> c \<le> r \<and> r < (c::nat)) = False" "(c \<le> r \<and> r < c \<and> B) = False"
  "(c \<le> r \<and> r < c) = False"
  by auto

lemma fold_column:
  "fold (\<lambda>i (M, m_i). (set_coeff M m_i m_j (F (fst i)), Suc m_i)) obs (M0, c) =
     (M0\<lparr>m_at := (\<lambda>r q. if q = m_j \<and> c \<le> r \<and> r < c + length obs
                         then F (fst (obs ! (r - c))) else m_at M0 r q)\<rparr>,
      c + length obs)"
proof (induction obs arbitrary: M0 c)
  case Nil
  show ?case by (simp add: empty_range)
next
  case (Cons e obs)
  let ?M1 = "set_coeff M0 c m_j (F (fst e))"
  have step: "(if q = m_j \<and> Suc c \<le> r \<and> r < Suc c + length obs
          then F (fst (obs ! (r - Suc c))) else m_at ?M1 r q) =
        (if q = m_j \<and> c \<le> r \<and> r < c + length (e # obs)
          then F (fst ((e # obs) ! (r - c))) else m_at M0 r q)" for r q
    by (auto simp add: set_coeff_def nth_Cons' Suc_diff_le)
  have "fold (\<lambda>i (M, m_i). (set_coeff M m_i m_j (F (fst i)), Suc m_i)) (e # obs) (M0, c) =
        fold (\<lambda>i (M, m_i). (set_coeff M m_i m_j (F (fst i)), Suc m_i)) obs (?M1, Suc c)"
    by simp
  also have "\<dots> =
     (?M1\<lparr>m_at := (\<lambda>r q. if q = m_j \<and> Suc c \<le> r \<and> r < Suc c + length obs
                         then F (fst (obs ! (r - Suc c))) else m_at ?M1 r q)\<rparr>,
      Suc c + length obs)"
    by (rule Cons.IH)
  also have "\<dots> =
     (M0\<lparr>m_at := (\<lambda>r q. if q = m_j \<and> c \<le> r \<and> r < c + length (e # obs)
                         then F (fst ((e # obs) ! (r - c))) else m_at M0 r q)\<rparr>,
      c + length (e # obs))"
    unfolding step by (simp add: set_coeff_def)
  finally show ?case .
qed

lemma fill_S_col_eq:
  "fill_S_col S_full obs j_first m_j S_m =
     S_m\<lparr>m_at := (\<lambda>r q. if q = m_j \<and> r < length obs
                         then m_at S_full (fst (obs ! r)) j_first else m_at S_m r q)\<rparr>"
  by (simp add: fill_S_col_def fold_column [where F = "\<lambda>k. m_at S_full k j_first"]
      cong del: if_weak_cong)

lemma fold_masks:
  "fold (\<lambda>j (S_m, C_m, m_j).
           (fill_S_col S_full obs (fst j) m_j S_m, set_col C_m m_j C_full (fst j), Suc m_j))
      js (S0, C0, c) =
     (S0\<lparr>m_at := (\<lambda>r q. if c \<le> q \<and> q < c + length js \<and> r < length obs
                         then m_at S_full (fst (obs ! r)) (fst (js ! (q - c)))
                         else m_at S0 r q)\<rparr>,
      C0\<lparr>m_at := (\<lambda>r q. if c \<le> q \<and> q < c + length js \<and> r < m_rows C0
                         then m_at C_full r (fst (js ! (q - c)))
                         else m_at C0 r q)\<rparr>,
      c + length js)"
proof (induction js arbitrary: S0 C0 c)
  case Nil
  show ?case by (simp add: empty_range)
next
  case (Cons e js)
  let ?S1 = "fill_S_col S_full obs (fst e) c S0"
  let ?C1 = "set_col C0 c C_full (fst e)"
  have S: "(if Suc c \<le> q \<and> q < Suc c + length js \<and> r < length obs
          then m_at S_full (fst (obs ! r)) (fst (js ! (q - Suc c))) else m_at ?S1 r q) =
        (if c \<le> q \<and> q < c + length (e # js) \<and> r < length obs
          then m_at S_full (fst (obs ! r)) (fst ((e # js) ! (q - c))) else m_at S0 r q)" for r q
    by (auto simp add: fill_S_col_eq nth_Cons' Suc_diff_le)
  have C: "(if Suc c \<le> q \<and> q < Suc c + length js \<and> r < m_rows ?C1
          then m_at C_full r (fst (js ! (q - Suc c))) else m_at ?C1 r q) =
        (if c \<le> q \<and> q < c + length (e # js) \<and> r < m_rows C0
          then m_at C_full r (fst ((e # js) ! (q - c))) else m_at C0 r q)" for r q
    by (auto simp add: set_col_def nth_Cons' Suc_diff_le)
  have "fold (\<lambda>j (S_m, C_m, m_j).
           (fill_S_col S_full obs (fst j) m_j S_m, set_col C_m m_j C_full (fst j), Suc m_j))
      (e # js) (S0, C0, c) =
        fold (\<lambda>j (S_m, C_m, m_j).
           (fill_S_col S_full obs (fst j) m_j S_m, set_col C_m m_j C_full (fst j), Suc m_j))
      js (?S1, ?C1, Suc c)"
    by simp
  also have "\<dots> =
     (?S1\<lparr>m_at := (\<lambda>r q. if Suc c \<le> q \<and> q < Suc c + length js \<and> r < length obs
                         then m_at S_full (fst (obs ! r)) (fst (js ! (q - Suc c)))
                         else m_at ?S1 r q)\<rparr>,
      ?C1\<lparr>m_at := (\<lambda>r q. if Suc c \<le> q \<and> q < Suc c + length js \<and> r < m_rows ?C1
                         then m_at C_full r (fst (js ! (q - Suc c)))
                         else m_at ?C1 r q)\<rparr>,
      Suc c + length js)"
    by (rule Cons.IH)
  also have "\<dots> =
     (S0\<lparr>m_at := (\<lambda>r q. if c \<le> q \<and> q < c + length (e # js) \<and> r < length obs
                         then m_at S_full (fst (obs ! r)) (fst ((e # js) ! (q - c)))
                         else m_at S0 r q)\<rparr>,
      C0\<lparr>m_at := (\<lambda>r q. if c \<le> q \<and> q < c + length (e # js) \<and> r < m_rows C0
                         then m_at C_full r (fst ((e # js) ! (q - c)))
                         else m_at C0 r q)\<rparr>,
      c + length (e # js))"
    unfolding S C by (simp add: fill_S_col_eq set_col_def)
  finally show ?case .
qed

lemma masked_S_submatrix:
  "m_rows (masked_S st) = length (m_observations st)
   \<and> m_cols (masked_S st) = length (m_observations st)
   \<and> (a < length (m_observations st) \<longrightarrow> b < length (m_observations st) \<longrightarrow>
        m_at (masked_S st) a b
          = m_at (base_S st) (fst (m_observations st ! a)) (fst (m_observations st ! b)))"
  by (simp add: masked_S_def masked_S_C_def Let_def fold_masks setZero_m_def
      cong del: if_weak_cong)

lemma masked_C_columns:
  "m_rows (masked_C st) = n_x st
   \<and> m_cols (masked_C st) = length (m_observations st)
   \<and> (r < n_x st \<longrightarrow> b < length (m_observations st) \<longrightarrow>
        m_at (masked_C st) r b = m_at (base_C st) r (fst (m_observations st ! b)))"
  by (simp add: masked_C_def masked_S_C_def Let_def fold_masks setZero_m_def
      cong del: if_weak_cong)

lemma fold_innovation:
  "fold (\<lambda>observation (zd_m, m_i).
           (set_coeff_v zd_m m_i (snd observation - v_at z_full (fst observation)), Suc m_i))
      obs (v0, c) =
     (v0\<lparr>v_at := (\<lambda>r. if c \<le> r \<and> r < c + length obs
                       then snd (obs ! (r - c)) - v_at z_full (fst (obs ! (r - c)))
                       else v_at v0 r)\<rparr>,
      c + length obs)"
proof (induction obs arbitrary: v0 c)
  case Nil
  show ?case by (simp add: empty_range)
next
  case (Cons e obs)
  let ?v1 = "set_coeff_v v0 c (snd e - v_at z_full (fst e))"
  have step: "(if Suc c \<le> r \<and> r < Suc c + length obs
          then snd (obs ! (r - Suc c)) - v_at z_full (fst (obs ! (r - Suc c)))
          else v_at ?v1 r) =
        (if c \<le> r \<and> r < c + length (e # obs)
          then snd ((e # obs) ! (r - c)) - v_at z_full (fst ((e # obs) ! (r - c)))
          else v_at v0 r)" for r
    by (auto simp add: set_coeff_v_def nth_Cons' Suc_diff_le)
  have "fold (\<lambda>observation (zd_m, m_i).
           (set_coeff_v zd_m m_i (snd observation - v_at z_full (fst observation)), Suc m_i))
      (e # obs) (v0, c) =
        fold (\<lambda>observation (zd_m, m_i).
           (set_coeff_v zd_m m_i (snd observation - v_at z_full (fst observation)), Suc m_i))
      obs (?v1, Suc c)"
    by simp
  also have "\<dots> =
     (?v1\<lparr>v_at := (\<lambda>r. if Suc c \<le> r \<and> r < Suc c + length obs
                       then snd (obs ! (r - Suc c)) - v_at z_full (fst (obs ! (r - Suc c)))
                       else v_at ?v1 r)\<rparr>,
      Suc c + length obs)"
    by (rule Cons.IH)
  also have "\<dots> =
     (v0\<lparr>v_at := (\<lambda>r. if c \<le> r \<and> r < c + length (e # obs)
                       then snd ((e # obs) ! (r - c)) - v_at z_full (fst ((e # obs) ! (r - c)))
                       else v_at v0 r)\<rparr>,
      c + length (e # obs))"
    unfolding step by (simp add: set_coeff_v_def)
  finally show ?case .
qed

lemma innovation_at:
  "v_size (innovation st) = length (m_observations st)
   \<and> (a < length (m_observations st) \<longrightarrow>
        v_at (innovation st) a
          = snd (m_observations st ! a) - v_at (base_z st) (fst (m_observations st ! a)))"
  by (simp add: innovation_def fold_innovation setZero_v_def cong del: if_weak_cong)

text \<open>
  The cofactor inverse on the two smallest sizes: the reciprocal of a 1 by 1 matrix, and a
  two-sided inverse of a 2 by 2 matrix whose determinant is not zero.
\<close>

lemma inverse_m_1x1:
  "m_rows M = 1 \<Longrightarrow> m_at M 0 0 \<noteq> 0 \<Longrightarrow> m_at (inverse_m M) 0 0 = 1 / m_at M 0 0"
  by (simp add: inverse_m_def determinant_def minor_at_def)

lemma inverse_m_2x2:
  assumes "m_rows M = 2" and "m_cols M = 2" and "determinant M \<noteq> 0" and "i < 2" and "j < 2"
  shows "m_at (mat_mul M (inverse_m M)) i j = (if i = j then 1 else 0)
    \<and> m_at (mat_mul (inverse_m M) M) i j = (if i = j then 1 else 0)"
proof -
  define D where "D = determinant M"
  define a b c e where "a = m_at M 0 0" and "b = m_at M 0 (Suc 0)"
    and "c = m_at M (Suc 0) 0" and "e = m_at M (Suc 0) (Suc 0)"
  have D: "a * e - b * c = D"
    by (simp add: D_def a_def b_def c_def e_def determinant_def assms(1) numeral_2_eq_2
        minor_at_def)
  have nz: "D \<noteq> 0"
    using assms(3) by (simp add: D_def)
  have inv: "m_at (inverse_m M) 0 0 = e / D" "m_at (inverse_m M) 0 (Suc 0) = - b / D"
    "m_at (inverse_m M) (Suc 0) 0 = - c / D" "m_at (inverse_m M) (Suc 0) (Suc 0) = a / D"
    using assms(3)
    by (simp_all add: inverse_m_def assms(1) minor_at_def D_def a_def b_def c_def e_def)
  have one: "(a * e - b * c) / D = 1"
    using nz by (simp add: D)
  have prods:
    "a * (e / D) + b * (- c / D) = 1" "a * (- b / D) + b * (a / D) = 0"
    "c * (e / D) + e * (- c / D) = 0" "c * (- b / D) + e * (a / D) = 1"
    "e / D * a + - b / D * c = 1" "e / D * b + - b / D * e = 0"
    "- c / D * a + a / D * c = 0" "- c / D * b + a / D * e = 1"
    using one nz by (simp_all add: field_simps)
  have ij: "i = 0 \<or> i = 1" "j = 0 \<or> j = 1"
    using assms(4,5) by auto
  have cols: "m_cols (inverse_m M) = 2"
    using assms(3) by (simp add: inverse_m_def assms(2))
  have upt2: "[0..<2] = [0, 1]"
    by (simp add: numeral_2_eq_2)
  show ?thesis
    using ij prods
    by (auto simp add: mat_mul_def assms(2) cols upt2 inv
        a_def [symmetric] b_def [symmetric] c_def [symmetric] e_def [symmetric])
qed

section \<open>The conditioning loops\<close>

text \<open>
  The loop over \<open>j\<close> in row \<open>i\<close>, after \<open>k\<close> rounds: the off-diagonal coefficients of the
  row seen so far that are below the threshold are zero, the others are as they were, and
  \<^verbatim>\<open>row_sum\<close> is the sum of the absolute values of those that were kept.
\<close>

lemma fold_clean_entry:
  "fold (clean_entry i) [0..<k] (M, 0) =
     (M\<lparr>m_at := (\<lambda>a b. if a = i \<and> b < k \<and> b \<noteq> i \<and> m_at M i b < 1 / 1000 then 0
                         else m_at M a b)\<rparr>,
      kept_sum k M i)"
proof (induction k)
  case 0
  show ?case by (simp add: kept_sum_def)
next
  case (Suc k)
  have "fold (clean_entry i) [0..<Suc k] (M, 0) =
          clean_entry i k (fold (clean_entry i) [0..<k] (M, 0))"
    by simp
  also have "\<dots> = clean_entry i k
      (M\<lparr>m_at := (\<lambda>a b. if a = i \<and> b < k \<and> b \<noteq> i \<and> m_at M i b < 1 / 1000 then 0
                          else m_at M a b)\<rparr>,
       kept_sum k M i)"
    by (simp only: Suc)
  also have "\<dots> =
     (M\<lparr>m_at := (\<lambda>a b. if a = i \<and> b < Suc k \<and> b \<noteq> i \<and> m_at M i b < 1 / 1000 then 0
                         else m_at M a b)\<rparr>,
      kept_sum (Suc k) M i)"
    by (auto simp add: clean_entry_def set_coeff_def kept_sum_def fun_eq_iff less_Suc_eq)
  finally show ?case .
qed

lemma clean_row_at:
  "m_at (clean_row n i M) a b = (if a = i then conditioned_at n M a b else m_at M a b)"
  by (simp add: clean_row_def fold_clean_entry set_coeff_def conditioned_at_def)

lemma clean_row_dims:
  "m_rows (clean_row n i M) = m_rows M \<and> m_cols (clean_row n i M) = m_cols M"
  by (simp add: clean_row_def fold_clean_entry set_coeff_def)

text \<open>A row is conditioned from its own coefficients only.\<close>

lemma conditioned_at_cong:
  assumes "\<And>b. m_at M a b = m_at N a b"
  shows "conditioned_at n M a b = conditioned_at n N a b"
proof -
  have row: "m_at M a = m_at N a"
    by (rule ext) (rule assms)
  show ?thesis
    unfolding conditioned_at_def kept_sum_def row by (rule refl)
qed

lemma fold_clean_row_at:
  "m_at (fold (clean_row n) [0..<k] M) a b =
     (if a < k then conditioned_at n M a b else m_at M a b)"
proof (induction k arbitrary: a b)
  case 0
  show ?case by simp
next
  case (Suc k)
  have "conditioned_at n (fold (clean_row n) [0..<k] M) k b = conditioned_at n M k b" for b
    by (rule conditioned_at_cong) (simp add: Suc)
  then show ?case
    by (simp add: Suc clean_row_at)
qed

lemma force_full_rank_at:
  "m_at (force_full_rank n M) a b = (if a < n then conditioned_at n M a b else m_at M a b)"
  by (simp add: force_full_rank_def fold_clean_row_at)

lemma fold_clean_row_dims:
  "m_rows (fold (clean_row n) [0..<k] M) = m_rows M
   \<and> m_cols (fold (clean_row n) [0..<k] M) = m_cols M"
  by (induction k) (simp_all add: clean_row_dims)

lemma force_full_rank_dims:
  "m_rows (force_full_rank n M) = m_rows M \<and> m_cols (force_full_rank n M) = m_cols M"
  unfolding force_full_rank_def by (rule fold_clean_row_dims)

lemma force_symmetric_at:
  "m_at (force_symmetric M) i j = (m_at M i j + m_at M j i) / 2"
  by (simp add: force_symmetric_def div_assign_m_def add_assign_m_def transpose_m_def)

lemma kept_sum_nonneg: "0 \<le> kept_sum n M i"
  unfolding kept_sum_def by (rule sum_list_nonneg) auto

lemma conditioned_diag_above: "kept_sum n M i < conditioned_at n M i i"
  by (simp add: conditioned_at_def)

section \<open>The conditioning loops in double arithmetic\<close>

text \<open>
  The same closed forms with rounded sums. Under a rounding the \<^verbatim>\<open>row_sum\<close> of a row is
  a double, and it is what the absolute values of the off-diagonal coefficients of the
  finished row add up to from left to right: a zeroed coefficient adds nothing.
\<close>

lemma kept_sum_rnd_Suc:
  "kept_sum_rnd rnd eps (Suc k) M i =
     (if k \<noteq> i \<and> \<not> m_at M i k < eps
      then rnd (kept_sum_rnd rnd eps k M i + \<bar>m_at M i k\<bar>) else kept_sum_rnd rnd eps k M i)"
  by (simp add: kept_sum_rnd_def)

lemma fold_clean_entry_rnd:
  "fold (clean_entry_rnd rnd eps i) [0..<k] (M, 0) =
     (M\<lparr>m_at := (\<lambda>a b. if a = i \<and> b < k \<and> b \<noteq> i \<and> m_at M i b < eps then 0
                         else m_at M a b)\<rparr>,
      kept_sum_rnd rnd eps k M i)"
proof (induction k)
  case 0
  show ?case by (simp add: kept_sum_rnd_def)
next
  case (Suc k)
  have "fold (clean_entry_rnd rnd eps i) [0..<Suc k] (M, 0) =
          clean_entry_rnd rnd eps i k (fold (clean_entry_rnd rnd eps i) [0..<k] (M, 0))"
    by simp
  also have "\<dots> = clean_entry_rnd rnd eps i k
      (M\<lparr>m_at := (\<lambda>a b. if a = i \<and> b < k \<and> b \<noteq> i \<and> m_at M i b < eps then 0
                          else m_at M a b)\<rparr>,
       kept_sum_rnd rnd eps k M i)"
    by (simp only: Suc)
  also have "\<dots> =
     (M\<lparr>m_at := (\<lambda>a b. if a = i \<and> b < Suc k \<and> b \<noteq> i \<and> m_at M i b < eps then 0
                         else m_at M a b)\<rparr>,
      kept_sum_rnd rnd eps (Suc k) M i)"
    by (auto simp add: clean_entry_rnd_def set_coeff_def kept_sum_rnd_Suc fun_eq_iff less_Suc_eq)
  finally show ?case .
qed

lemma clean_row_rnd_at:
  "m_at (clean_row_rnd rnd eps n i M) a b =
     (if a = i then conditioned_at_rnd rnd eps n M a b else m_at M a b)"
  by (simp add: clean_row_rnd_def fold_clean_entry_rnd set_coeff_def conditioned_at_rnd_def)

lemma conditioned_at_rnd_cong:
  assumes "\<And>b. m_at M a b = m_at N a b"
  shows "conditioned_at_rnd rnd eps n M a b = conditioned_at_rnd rnd eps n N a b"
proof -
  have row: "m_at M a = m_at N a"
    by (rule ext) (rule assms)
  show ?thesis
    unfolding conditioned_at_rnd_def kept_sum_rnd_def row by (rule refl)
qed

lemma fold_clean_row_rnd_at:
  "m_at (fold (clean_row_rnd rnd eps n) [0..<k] M) a b =
     (if a < k then conditioned_at_rnd rnd eps n M a b else m_at M a b)"
proof (induction k arbitrary: a b)
  case 0
  show ?case by simp
next
  case (Suc k)
  have "conditioned_at_rnd rnd eps n (fold (clean_row_rnd rnd eps n) [0..<k] M) k b
      = conditioned_at_rnd rnd eps n M k b" for b
    by (rule conditioned_at_rnd_cong) (simp add: Suc)
  then show ?case
    by (simp add: Suc clean_row_rnd_at)
qed

lemma force_full_rank_rnd_at:
  "m_at (force_full_rank_rnd rnd eps n M) a b =
     (if a < n then conditioned_at_rnd rnd eps n M a b else m_at M a b)"
  by (simp add: force_full_rank_rnd_def fold_clean_row_rnd_at)

lemma force_symmetric_rnd_at:
  "m_at (force_symmetric_rnd rnd M) i j = rnd (rnd (m_at M i j + m_at M j i) / 2)"
  by (simp add: force_symmetric_rnd_def div_assign_m_rnd_def add_assign_m_rnd_def
      transpose_m_def)

lemma kept_sum_rnd_fixed:
  assumes "rounding rnd"
  shows "rnd (kept_sum_rnd rnd eps k M i) = kept_sum_rnd rnd eps k M i"
proof (induction k)
  case 0
  from assms show ?case by (simp add: kept_sum_rnd_def rounding_def)
next
  case (Suc k)
  from assms have "rnd (rnd y) = rnd y" for y
    by (simp add: rounding_def)
  with Suc show ?case
    by (simp add: kept_sum_rnd_Suc)
qed

lemma row_sum_rnd_Suc:
  "row_sum_rnd rnd (Suc k) M i =
     (if k = i then row_sum_rnd rnd k M i else rnd (row_sum_rnd rnd k M i + \<bar>m_at M i k\<bar>))"
  by (simp add: row_sum_rnd_def)

lemma row_sum_rnd_conditioned:
  assumes "rounding rnd" and "i < n" and "k \<le> n"
  shows "row_sum_rnd rnd k (force_full_rank_rnd rnd eps n M) i = kept_sum_rnd rnd eps k M i"
  using assms(3)
proof (induction k)
  case 0
  show ?case by (simp add: row_sum_rnd_def kept_sum_rnd_def)
next
  case (Suc k)
  then have IH: "row_sum_rnd rnd k (force_full_rank_rnd rnd eps n M) i
      = kept_sum_rnd rnd eps k M i" and k: "k < n"
    by simp_all
  have at: "m_at (force_full_rank_rnd rnd eps n M) i k
      = (if m_at M i k < eps then 0 else m_at M i k)" if "k \<noteq> i"
    using that assms(2) k by (simp add: force_full_rank_rnd_at conditioned_at_rnd_def)
  show ?case
  proof (cases "k = i")
    case True
    with IH show ?thesis
      by (simp add: row_sum_rnd_Suc kept_sum_rnd_Suc)
  next
    case False
    with IH show ?thesis
      by (simp add: row_sum_rnd_Suc kept_sum_rnd_Suc at kept_sum_rnd_fixed [OF assms(1)])
  qed
qed

lemma finish_update_P:
  "finish_update rnd eps x' P' st = Inr s \<Longrightarrow>
     base_P s = force_full_rank_rnd rnd eps (n_x st) (force_symmetric_rnd rnd P')"
  by (auto simp add: finish_update_def)

text \<open>The rounding of the examples is one.\<close>

lemma rounding_coarse: "rounding coarse"
  unfolding rounding_def
proof (intro conjI allI impI)
  fix x y :: real
  assume le: "x \<le> y"
  have fl: "of_int \<lfloor>x\<rfloor> \<le> (of_int \<lfloor>y\<rfloor> :: real)"
    using le by (simp add: floor_mono)
  have a: "x \<le> of_int \<lfloor>y\<rfloor>" if "\<bar>x\<bar> < 1000" "\<not> \<bar>y\<bar> < 1000"
  proof -
    from that le have "1000 \<le> y" by linarith
    then have "(1000::int) \<le> \<lfloor>y\<rfloor>" by (simp add: le_floor_iff)
    then have "(1000::real) \<le> of_int \<lfloor>y\<rfloor>" by linarith
    with that show ?thesis by linarith
  qed
  have b: "of_int \<lfloor>x\<rfloor> \<le> y" if "\<not> \<bar>x\<bar> < 1000" "\<bar>y\<bar> < 1000"
  proof -
    have "of_int \<lfloor>x\<rfloor> \<le> x" by simp
    with le show ?thesis by linarith
  qed
  show "coarse x \<le> coarse y"
    using le fl a b by (simp add: coarse_def)
next
  fix x :: real
  show "coarse (coarse x) = coarse x"
  proof (cases "\<bar>x\<bar> < 1000")
    case True
    then show ?thesis by (simp add: coarse_def)
  next
    case False
    then show ?thesis by (simp add: coarse_def)
  qed
next
  show "coarse 0 = 0" by (simp add: coarse_def)
qed

text \<open>In exact arithmetic the rounded definitions are the ones of the correction.\<close>

lemma force_symmetric_exact: "force_symmetric_rnd id = force_symmetric"
  by (simp add: fun_eq_iff force_symmetric_rnd_def force_symmetric_def div_assign_m_rnd_def
      div_assign_m_def add_assign_m_rnd_def add_assign_m_def)

lemma clean_entry_exact: "clean_entry_rnd id (1 / 1000) = clean_entry"
  by (simp add: fun_eq_iff clean_entry_rnd_def clean_entry_def)

lemma clean_row_exact: "clean_row_rnd id (1 / 1000) = clean_row"
  by (simp add: fun_eq_iff clean_row_rnd_def clean_row_def clean_entry_exact split: prod.split)

lemma force_full_rank_exact: "force_full_rank_rnd id (1 / 1000) = force_full_rank"
  by (simp add: fun_eq_iff force_full_rank_rnd_def force_full_rank_def clean_row_exact)

section \<open>The masked correction\<close>

lemma masked_kalman_update_returns:
  "masked_kalman_update st = Inr (state_after (masked_kalman_update st))"
  by (simp add: masked_kalman_update_def state_after_def Let_def)

lemma masked_kalman_update_P:
  "masked_kalman_update st = Inr s \<Longrightarrow>
     base_P s = force_full_rank (n_x st) (force_symmetric (update_covariance st))"
  by (auto simp add: masked_kalman_update_def Let_def)

lemma masked_kalman_update_finish:
  "masked_kalman_update st =
     finish_update id (1 / 1000) (update_state st) (update_covariance st) st"
  by (simp add: masked_kalman_update_def finish_update_def Let_def force_symmetric_exact
      force_full_rank_exact)

lemma finish_update_returns:
  "finish_update rnd eps x' P' st = Inr (state_after (finish_update rnd eps x' P' st))"
  by (simp add: finish_update_def state_after_def)

lemma empty_buffer_regular: "m_observations st = [] \<Longrightarrow> determinant (masked_S st) = 1"
  by (simp add: determinant_def masked_S_def masked_S_C_def setZero_m_def)

lemma empty_buffer_masked_S: "m_observations st = [] \<Longrightarrow> m_cols (masked_S st) = 0"
  by (simp add: masked_S_def masked_S_C_def setZero_m_def)

lemma empty_buffer_gain:
  assumes "m_observations st = []"
  shows "m_cols (kalman_gain st) = 0"
proof -
  have "determinant (masked_S st) \<noteq> 0"
    by (simp add: empty_buffer_regular [OF assms])
  then show ?thesis
    by (simp add: kalman_gain_def from_inverse_m_def mat_mul_def inverse_m_def
        empty_buffer_masked_S [OF assms])
qed

subsection \<open>The threshold test\<close>

text \<open>
  Claim C1: with a reading pending, the conditioning step averages \<open>P\<close> with its
  transpose, zeroes in every row exactly the off-diagonal coefficients of magnitude below
  \<open>1e-3\<close>, sums the absolute values of the others and raises the diagonal to that sum plus
  \<open>1e-3\<close> when it does not exceed the sum; a coefficient of magnitude \<open>1e-3\<close> or more, a
  negative one included, is never zeroed. The source tests \<^verbatim>\<open>P(i,j) < 1E-3\<close>, the signed
  coefficient, and takes \<^verbatim>\<open>std::abs\<close> only of what passed that test. At \<open>P = [[1,-5],[-5,1]]\<close>
  with an invertible \<open>S_m\<close> and a zero gain the symmetrised covariance still holds \<open>-5\<close>
  off the diagonal, of magnitude \<open>5\<close>, and the call returns \<open>P = [[1,0],[0,1]]\<close>: both
  coefficients are zeroed, and the diagonal, which the claim puts at \<open>5.001\<close>, stays \<open>1\<close>.
\<close>

theorem negative_covariance_zeroed:
  "has_observations negative_cov_state
   \<and> determinant (masked_S negative_cov_state) = 1
   \<and> m_at (force_symmetric (update_covariance negative_cov_state)) 0 1 = - 5
   \<and> m_at (force_symmetric (update_covariance negative_cov_state)) 1 0 = - 5
   \<and> raised (masked_kalman_update negative_cov_state) = None
   \<and> m_at (base_P (state_after (masked_kalman_update negative_cov_state))) 0 1 = 0
   \<and> m_at (base_P (state_after (masked_kalman_update negative_cov_state))) 1 0 = 0
   \<and> m_at (base_P (state_after (masked_kalman_update negative_cov_state))) 0 0 = 1
   \<and> m_at (base_P (state_after (masked_kalman_update negative_cov_state))) 1 1 = 1"
  by (simp add: state_defs update_defs loop_defs read_defs
      eigen_defs numeral_2_eq_2)

subsection \<open>A singular innovation covariance\<close>

text \<open>
  Claim C2, as stated, fails: a singular \<open>S_m\<close> should make \<open>masked_kalman_update\<close>
  raise a \<open>NumericalError\<close> before \<open>x\<close> and \<open>P\<close> are touched. A fresh estimator has
  \<open>S = 0\<close>; with one reading pending \<open>S_m\<close> is the 1 by 1 zero matrix, of determinant
  zero, and the call returns without raising anything.
\<close>

theorem singular_not_raised_counterexample:
  "has_observations singular_state
   \<and> m_rows (masked_S singular_state) = 1 \<and> m_cols (masked_S singular_state) = 1
   \<and> m_at (masked_S singular_state) 0 0 = 0
   \<and> determinant (masked_S singular_state) = 0
   \<and> raised (masked_kalman_update singular_state) = None
   \<and> raised (masked_kalman_update singular_state) \<noteq> Some NumericalError"
  by (simp add: state_defs update_defs read_defs eigen_defs)

text \<open>
  Claim C2, amended: with a singular \<open>S_m\<close> \<open>masked_kalman_update\<close> raises no
  \<open>NumericalError\<close> and no other error. Like every call it returns normally, with the
  observation buffer cleared. What \<open>x\<close> and \<open>P\<close> hold after such a call is not specified:
  they come from an inverse that the library leaves undefined.
\<close>

theorem update_never_raises:
  "raised (masked_kalman_update st) = None
   \<and> masked_kalman_update st = Inr (state_after (masked_kalman_update st))
   \<and> \<not> has_observations (state_after (masked_kalman_update st))
   \<and> (\<forall>i. \<not> has_observation (state_after (masked_kalman_update st)) i)"
  by (simp add: masked_kalman_update_def read_defs Let_def)

subsection \<open>An empty buffer\<close>

text \<open>
  Claim C3, as stated, fails: with an empty buffer the call should leave \<open>x\<close> and \<open>P\<close>
  as they were. The conditioning step runs whatever the buffer holds: at \<open>P = [[0]]\<close> and
  an empty buffer the diagonal is raised to \<open>0.001\<close>.
\<close>

theorem empty_buffer_counterexample:
  "\<not> has_observations zero_cov_state
   \<and> raised (masked_kalman_update zero_cov_state) = None
   \<and> m_at (base_P zero_cov_state) 0 0 = 0
   \<and> m_at (base_P (state_after (masked_kalman_update zero_cov_state))) 0 0 = 1 / 1000
   \<and> base_P (state_after (masked_kalman_update zero_cov_state)) \<noteq> base_P zero_cov_state"
proof -
  have a: "m_at (base_P zero_cov_state) 0 0 = 0"
    by (simp add: state_defs eigen_defs)
  have b: "m_at (base_P (state_after (masked_kalman_update zero_cov_state))) 0 0 = 1 / 1000"
    by (simp add: state_defs update_defs loop_defs read_defs eigen_defs)
  have "base_P (state_after (masked_kalman_update zero_cov_state)) \<noteq> base_P zero_cov_state"
  proof
    assume "base_P (state_after (masked_kalman_update zero_cov_state)) = base_P zero_cov_state"
    then have "m_at (base_P (state_after (masked_kalman_update zero_cov_state))) 0 0
      = m_at (base_P zero_cov_state) 0 0"
      by simp
    with a b show False by simp
  qed
  moreover have "\<not> has_observations zero_cov_state"
    by (simp add: state_defs read_defs)
  moreover have "raised (masked_kalman_update zero_cov_state) = None"
    by (simp add: masked_kalman_update_def raised_def Let_def)
  ultimately show ?thesis using a b by simp
qed

text \<open>
  Claim C3, amended: with an empty buffer \<open>masked_kalman_update\<close> raises no error,
  leaves \<open>x\<close> as it was and \<open>has_observations\<close> false; \<open>P\<close> is not left alone but goes
  through the conditioning step: it is averaged with its transpose, then cleaned and
  made diagonally dominant row by row.
\<close>

theorem empty_buffer_update:
  assumes "m_observations st = []"
  shows "raised (masked_kalman_update st) = None
    \<and> base_x (state_after (masked_kalman_update st)) = base_x st
    \<and> \<not> has_observations (state_after (masked_kalman_update st))
    \<and> base_P (state_after (masked_kalman_update st))
        = force_full_rank (n_x st) (force_symmetric (base_P st))"
proof -
  have x: "update_state st = base_x st"
    by (simp add: update_state_def from_inverse_v_def empty_buffer_regular [OF assms]
        add_assign_v_def mat_vec_def empty_buffer_gain [OF assms])
  have P: "update_covariance st = base_P st"
    by (simp add: update_covariance_def from_inverse_m_def empty_buffer_regular [OF assms]
        sub_assign_m_def mat_mul_def empty_buffer_masked_S [OF assms])
  show ?thesis
    by (simp add: masked_kalman_update_def read_defs Let_def x P)
qed

text \<open>
  The theorem at the estimator of the scenario before its reading arrives: \<open>P\<close> is the
  identity, which the conditioning step maps to itself.
\<close>

theorem empty_buffer_update_witness:
  "m_observations scenario_state = []
   \<and> raised (masked_kalman_update scenario_state) = None
   \<and> base_x (state_after (masked_kalman_update scenario_state)) = base_x scenario_state
   \<and> \<not> has_observations (state_after (masked_kalman_update scenario_state))
   \<and> m_at (base_P (state_after (masked_kalman_update scenario_state))) 0 0 = 1
   \<and> m_at (base_P (state_after (masked_kalman_update scenario_state))) 0 1 = 0"
proof -
  have empty: "m_observations scenario_state = []"
    by (simp add: state_defs)
  have "m_at (force_full_rank (n_x scenario_state) (force_symmetric (base_P scenario_state)))
          0 0 = 1
      \<and> m_at (force_full_rank (n_x scenario_state) (force_symmetric (base_P scenario_state)))
          0 1 = 0"
    by (simp add: state_defs set_coeff_def setZero_m_def force_full_rank_at conditioned_at_def
        kept_sum_def force_symmetric_at setIdentity_def numeral_2_eq_2)
  then show ?thesis
    using empty_buffer_update [OF empty] empty by simp
qed

subsection \<open>Symmetry and diagonal dominance\<close>

text \<open>
  Claim C4, as stated, fails: after a correction with a reading pending every diagonal
  coefficient should exceed the sum of the absolute values of the off-diagonal
  coefficients of its row by at least \<open>1e-3\<close>. The diagonal is raised only when it does
  not exceed the sum; one that exceeds it by less than \<open>1e-3\<close> stays. At \<open>P = [[1/2048]]\<close>
  with \<open>S = [[1]]\<close> and a zero gain the call returns \<open>P = [[1/2048]]\<close>, over a row sum of
  zero.
\<close>

theorem small_margin_counterexample:
  "has_observations small_margin_state
   \<and> determinant (masked_S small_margin_state) = 1
   \<and> raised (masked_kalman_update small_margin_state) = None
   \<and> n_x small_margin_state = 1
   \<and> m_at (base_P (state_after (masked_kalman_update small_margin_state))) 0 0 = 1 / 2048
   \<and> offdiag_abs_sum 1 (base_P (state_after (masked_kalman_update small_margin_state))) 0 = 0
   \<and> \<not> (offdiag_abs_sum 1 (base_P (state_after (masked_kalman_update small_margin_state))) 0
            + 1 / 1000
          \<le> m_at (base_P (state_after (masked_kalman_update small_margin_state))) 0 0)"
  by (simp add: state_defs update_defs loop_defs read_defs
      eigen_defs offdiag_abs_sum_def)

text \<open>
  Claim C4, amended: after every \<open>masked_kalman_update\<close> that completes with finite
  coefficients, \<open>P\<close> is symmetric and in every row the diagonal is at least the row sum:
  the absolute values of the off-diagonal coefficients of the row, added from left to
  right in double arithmetic. A diagonal that exceeded the row sum is kept, whatever its
  margin. One that did not is set to the row sum plus \<open>1e-3\<close>, rounded to a double, which
  for a large row sum is the row sum itself: neither a margin of \<open>1e-3\<close> nor a strict
  inequality holds in general. This is a property of the conditioning step, for any state
  vector and covariance that the lines before it computed, any rounding and any literal
  that is not negative.
\<close>

theorem covariance_symmetric_and_dominant:
  assumes "rounding rnd" and "0 \<le> eps"
    and "finish_update rnd eps x' P' st = Inr s" and "i < n_x st" and "j < n_x st"
  shows "m_at (base_P s) i j = m_at (base_P s) j i
    \<and> row_sum_rnd rnd (n_x st) (base_P s) i \<le> m_at (base_P s) i i
    \<and> (m_at (force_symmetric_rnd rnd P') i i \<le> row_sum_rnd rnd (n_x st) (base_P s) i
        \<longrightarrow> m_at (base_P s) i i = rnd (row_sum_rnd rnd (n_x st) (base_P s) i + eps))
    \<and> (\<not> m_at (force_symmetric_rnd rnd P') i i \<le> row_sum_rnd rnd (n_x st) (base_P s) i
        \<longrightarrow> m_at (base_P s) i i = m_at (force_symmetric_rnd rnd P') i i)"
proof -
  let ?A = "force_symmetric_rnd rnd P'"
  let ?n = "n_x st"
  let ?rs = "kept_sum_rnd rnd eps ?n ?A i"
  have P: "base_P s = force_full_rank_rnd rnd eps ?n ?A"
    using assms(3) by (rule finish_update_P)
  have sym: "m_at ?A a b = m_at ?A b a" for a b
    by (simp add: force_symmetric_rnd_at add.commute)
  have rs: "row_sum_rnd rnd ?n (base_P s) i = ?rs"
    unfolding P using assms(1,4) by (simp add: row_sum_rnd_conditioned)
  have diag: "m_at (base_P s) i i = (if m_at ?A i i \<le> ?rs then rnd (?rs + eps) else m_at ?A i i)"
    unfolding P using assms(4) by (simp add: force_full_rank_rnd_at conditioned_at_rnd_def)
  have "m_at (base_P s) i j = m_at (base_P s) j i"
  proof (cases "i = j")
    case True
    then show ?thesis by simp
  next
    case False
    then show ?thesis
      unfolding P using assms(4,5) sym [of i j]
      by (simp add: force_full_rank_rnd_at conditioned_at_rnd_def)
  qed
  moreover have "?rs \<le> m_at (base_P s) i i"
  proof (cases "m_at ?A i i \<le> ?rs")
    case True
    from assms(1) have mono: "x \<le> y \<Longrightarrow> rnd x \<le> rnd y" for x y
      by (simp add: rounding_def)
    have "?rs = rnd ?rs"
      by (simp add: kept_sum_rnd_fixed [OF assms(1)])
    also have "\<dots> \<le> rnd (?rs + eps)"
      using assms(2) by (intro mono) simp
    finally show ?thesis
      using True by (simp add: diag)
  next
    case False
    then show ?thesis by (simp add: diag)
  qed
  ultimately show ?thesis
    by (simp add: rs diag)
qed

text \<open>
  The theorem at the covariance \<open>[[1,2000],[2000,1]]\<close> under the rounding of the
  examples: the diagonal of row 0 is raised to \<open>2000.001\<close>, which rounds to the row sum,
  \<open>2000\<close>.
\<close>

theorem covariance_symmetric_and_dominant_witness:
  "rounding coarse \<and> (0::real) \<le> 1 / 1000
   \<and> finish_update coarse (1 / 1000) (base_x two_observers) wide_cov two_observers
       = Inr (state_after
           (finish_update coarse (1 / 1000) (base_x two_observers) wide_cov two_observers))
   \<and> (0::nat) < n_x two_observers \<and> (1::nat) < n_x two_observers
   \<and> m_at (base_P (state_after
         (finish_update coarse (1 / 1000) (base_x two_observers) wide_cov two_observers))) 0 1
       = m_at (base_P (state_after
         (finish_update coarse (1 / 1000) (base_x two_observers) wide_cov two_observers))) 1 0
   \<and> row_sum_rnd coarse (n_x two_observers) (base_P (state_after
         (finish_update coarse (1 / 1000) (base_x two_observers) wide_cov two_observers))) 0
       \<le> m_at (base_P (state_after
         (finish_update coarse (1 / 1000) (base_x two_observers) wide_cov two_observers))) 0 0
   \<and> row_sum_rnd coarse 2 (base_P (state_after
         (finish_update coarse (1 / 1000) (base_x two_observers) wide_cov two_observers))) 0 = 2000
   \<and> m_at (base_P (state_after
         (finish_update coarse (1 / 1000) (base_x two_observers) wide_cov two_observers))) 0 0 = 2000"
proof -
  let ?r = "finish_update coarse (1 / 1000) (base_x two_observers) wide_cov two_observers"
  have ret: "?r = Inr (state_after ?r)"
    by (rule finish_update_returns)
  have eps: "(0::real) \<le> 1 / 1000"
    by simp
  have i: "0 < n_x two_observers" and j: "1 < n_x two_observers"
    by (simp_all add: state_defs)
  have sym: "m_at (force_symmetric_rnd coarse wide_cov) a b
      = (if a = b then 1 else if a < 2 \<and> b < 2 then 2000 else 0)"
    for a b
    by (auto simp add: force_symmetric_rnd_at wide_cov_def set_coeff_def setIdentity_def
        coarse_def numeral_2_eq_2)
  have P: "base_P (state_after ?r)
      = force_full_rank_rnd coarse (1 / 1000) 2 (force_symmetric_rnd coarse wide_cov)"
    by (simp add: finish_update_def state_defs)
  have ks: "kept_sum_rnd coarse (1 / 1000) 2 (force_symmetric_rnd coarse wide_cov) 0 = 2000"
    by (simp add: kept_sum_rnd_def sym numeral_2_eq_2 coarse_def)
  have diag: "m_at (base_P (state_after ?r)) 0 0 = 2000"
    by (simp add: P force_full_rank_rnd_at conditioned_at_rnd_def ks sym coarse_def)
  have rs: "row_sum_rnd coarse 2 (base_P (state_after ?r)) 0 = 2000"
    by (simp add: P row_sum_rnd_def force_full_rank_rnd_at conditioned_at_rnd_def sym
        numeral_2_eq_2 coarse_def)
  from covariance_symmetric_and_dominant [OF rounding_coarse eps ret i j]
  have "m_at (base_P (state_after ?r)) 0 1 = m_at (base_P (state_after ?r)) 1 0
      \<and> row_sum_rnd coarse (n_x two_observers) (base_P (state_after ?r)) 0
          \<le> m_at (base_P (state_after ?r)) 0 0"
    by blast
  with rounding_coarse eps ret i j rs diag show ?thesis
    by blast
qed

text \<open>
  Claim C10: after every \<open>masked_kalman_update\<close> every diagonal coefficient of \<open>P\<close> is
  strictly positive, whatever \<open>P\<close> was before (asymmetric, or with a diagonal that is not
  positive) and whatever the buffer holds, the empty buffer included: the diagonal is
  above a row sum that is not negative. Coefficients are real numbers here, so all of
  them are finite.
\<close>

theorem diagonal_positive:
  assumes "masked_kalman_update st = Inr s" and "i < n_x st"
  shows "0 < m_at (base_P s) i i"
proof -
  let ?A = "force_symmetric (update_covariance st)"
  have P: "base_P s = force_full_rank (n_x st) ?A"
    using assms(1) by (rule masked_kalman_update_P)
  have "0 \<le> kept_sum (n_x st) ?A i"
    by (rule kept_sum_nonneg)
  also have "\<dots> < conditioned_at (n_x st) ?A i i"
    by (rule conditioned_diag_above)
  also have "\<dots> = m_at (base_P s) i i"
    unfolding P using assms(2) by (simp add: force_full_rank_at)
  finally show ?thesis .
qed

text \<open>The theorem at \<open>P = [[0]]\<close> and an empty buffer.\<close>

theorem diagonal_positive_witness:
  "masked_kalman_update zero_cov_state = Inr (state_after (masked_kalman_update zero_cov_state))
   \<and> (0::nat) < n_x zero_cov_state
   \<and> m_at (base_P zero_cov_state) 0 0 = 0
   \<and> 0 < m_at (base_P (state_after (masked_kalman_update zero_cov_state))) 0 0"
proof -
  have ret: "masked_kalman_update zero_cov_state
      = Inr (state_after (masked_kalman_update zero_cov_state))"
    by (rule masked_kalman_update_returns)
  have i: "0 < n_x zero_cov_state"
    by (simp add: state_defs)
  have "m_at (base_P zero_cov_state) 0 0 = 0"
    by (simp add: state_defs eigen_defs)
  with diagonal_positive [OF ret i] ret i
  show ?thesis by blast
qed

subsection \<open>The scenario\<close>

text \<open>
  Claim C5: at \<open>n_x = 2\<close>, \<open>n_z = 1\<close>, \<open>C = [[1],[0]]\<close>, \<open>z = [0]\<close>, \<open>S = [[1]]\<close>,
  \<open>x = [0,0]\<close> and \<open>P\<close> the identity, \<open>new_observation(0, 1.0)\<close> followed by
  \<open>masked_kalman_update\<close> gives the gain \<open>K_m = [[1],[0]]\<close>, the innovation
  \<open>d_m = [1]\<close>, the state \<open>x = [1, 0]\<close>, the covariance \<open>[[0,0],[0,1]]\<close> before
  conditioning and \<open>[[0.001,0],[0,1]]\<close> after it.
\<close>

theorem scenario_values:
  "new_observation scenario_state 0 1 = Inr scenario_pending
   \<and> m_observations scenario_pending = [(0, 1)]
   \<and> m_rows (kalman_gain scenario_pending) = 2 \<and> m_cols (kalman_gain scenario_pending) = 1
   \<and> m_at (kalman_gain scenario_pending) 0 0 = 1
   \<and> m_at (kalman_gain scenario_pending) 1 0 = 0
   \<and> v_size (innovation scenario_pending) = 1
   \<and> v_at (innovation scenario_pending) 0 = 1
   \<and> raised (masked_kalman_update scenario_pending) = None
   \<and> v_at (base_x (state_after (masked_kalman_update scenario_pending))) 0 = 1
   \<and> v_at (base_x (state_after (masked_kalman_update scenario_pending))) 1 = 0
   \<and> m_at (update_covariance scenario_pending) 0 0 = 0
   \<and> m_at (update_covariance scenario_pending) 0 1 = 0
   \<and> m_at (update_covariance scenario_pending) 1 0 = 0
   \<and> m_at (update_covariance scenario_pending) 1 1 = 1
   \<and> m_at (base_P (state_after (masked_kalman_update scenario_pending))) 0 0 = 1 / 1000
   \<and> m_at (base_P (state_after (masked_kalman_update scenario_pending))) 0 1 = 0
   \<and> m_at (base_P (state_after (masked_kalman_update scenario_pending))) 1 0 = 0
   \<and> m_at (base_P (state_after (masked_kalman_update scenario_pending))) 1 1 = 1"
  by (simp add: state_defs
      update_defs loop_defs read_defs eigen_defs numeral_2_eq_2)

subsection \<open>What the correction leaves alone\<close>

text \<open>
  Claim C8, as stated, fails: \<open>x\<close>, \<open>P\<close> and the buffer should be all that the call
  writes. It also writes the member \<open>t_xx\<close>, which the constructor had set to zero and
  which receives the transpose of the updated covariance: at the scenario \<open>t_xx(1,1)\<close>
  goes from 0 to 1.
\<close>

theorem scratch_matrix_counterexample:
  "raised (masked_kalman_update scenario_pending) = None
   \<and> m_at (t_xx scenario_pending) 1 1 = 0
   \<and> m_at (t_xx (state_after (masked_kalman_update scenario_pending))) 1 1 = 1
   \<and> t_xx (state_after (masked_kalman_update scenario_pending)) \<noteq> t_xx scenario_pending"
proof -
  have a: "m_at (t_xx scenario_pending) 1 1 = 0"
    by (simp add: state_defs eigen_defs)
  have b: "m_at (t_xx (state_after (masked_kalman_update scenario_pending))) 1 1 = 1"
    by (simp add: state_defs update_defs read_defs eigen_defs)
  have "t_xx (state_after (masked_kalman_update scenario_pending)) \<noteq> t_xx scenario_pending"
  proof
    assume "t_xx (state_after (masked_kalman_update scenario_pending)) = t_xx scenario_pending"
    then have "m_at (t_xx (state_after (masked_kalman_update scenario_pending))) 1 1
        = m_at (t_xx scenario_pending) 1 1"
      by simp
    with a b show False by simp
  qed
  moreover have "raised (masked_kalman_update scenario_pending) = None"
    by (simp add: masked_kalman_update_def raised_def Let_def)
  ultimately show ?thesis using a b by simp
qed

text \<open>
  Claim C8, amended: every \<open>masked_kalman_update\<close> that completes clears the
  observation buffer, so that \<open>has_observations\<close> is false and \<open>has_observation\<close> is false
  at every index, and leaves \<open>Q\<close>, \<open>R\<close>, \<open>C\<close>, \<open>z\<close>, \<open>S\<close> and the dimensions \<open>n_x\<close> and
  \<open>n_z\<close> as they were. What it writes is \<open>x\<close>, \<open>P\<close>, the buffer and the scratch matrix
  \<open>t_xx\<close>, and nothing else.
\<close>

theorem update_frame:
  assumes "masked_kalman_update st = Inr s"
  shows "\<not> has_observations s \<and> (\<forall>i. \<not> has_observation s i)
    \<and> base_Q s = base_Q st \<and> base_R s = base_R st \<and> base_C s = base_C st
    \<and> base_z s = base_z st \<and> base_S s = base_S st
    \<and> n_x s = n_x st \<and> n_z s = n_z st
    \<and> s = st\<lparr>base_x := base_x s, base_P := base_P s, t_xx := t_xx s, m_observations := []\<rparr>"
  using assms
  by (auto simp add: masked_kalman_update_def Let_def has_observations_def has_observation_def)

text \<open>The theorem at the scenario, whose buffer holds a reading before the call.\<close>

theorem update_frame_witness:
  "masked_kalman_update scenario_pending
     = Inr (state_after (masked_kalman_update scenario_pending))
   \<and> has_observations scenario_pending
   \<and> \<not> has_observations (state_after (masked_kalman_update scenario_pending))
   \<and> \<not> has_observation (state_after (masked_kalman_update scenario_pending)) 0
   \<and> base_S (state_after (masked_kalman_update scenario_pending)) = base_S scenario_state
   \<and> base_C (state_after (masked_kalman_update scenario_pending)) = base_C scenario_state
   \<and> n_x (state_after (masked_kalman_update scenario_pending)) = 2
   \<and> n_z (state_after (masked_kalman_update scenario_pending)) = 1"
proof -
  have ret: "masked_kalman_update scenario_pending
      = Inr (state_after (masked_kalman_update scenario_pending))"
    by (rule masked_kalman_update_returns)
  have pend: "scenario_pending = scenario_state\<lparr>m_observations := [(0, 1)]\<rparr>"
    by (simp add: state_defs)
  have "has_observations scenario_pending"
    by (simp add: pend has_observations_def)
  moreover have "n_x scenario_pending = 2 \<and> n_z scenario_pending = 1"
    by (simp add: pend state_defs)
  moreover have "base_S scenario_pending = base_S scenario_state
      \<and> base_C scenario_pending = base_C scenario_state"
    by (simp add: pend)
  moreover have "\<not> has_observations (state_after (masked_kalman_update scenario_pending))
      \<and> \<not> has_observation (state_after (masked_kalman_update scenario_pending)) 0
      \<and> base_S (state_after (masked_kalman_update scenario_pending)) = base_S scenario_pending
      \<and> base_C (state_after (masked_kalman_update scenario_pending)) = base_C scenario_pending
      \<and> n_x (state_after (masked_kalman_update scenario_pending)) = n_x scenario_pending
      \<and> n_z (state_after (masked_kalman_update scenario_pending)) = n_z scenario_pending"
    using update_frame [OF ret] by blast
  ultimately show ?thesis
    using ret by simp
qed

section \<open>What every reachable estimator satisfies\<close>

lemma new_base_t_well_formed: "well_formed (new_base_t n m)"
  by (simp add: well_formed_def new_base_t_def setZero_v_def setZero_m_def setIdentity_def
      ascending_keys_def)

lemma new_observation_well_formed:
  assumes "well_formed st" and "new_observation st k v = Inr s"
  shows "well_formed s"
proof -
  from assms(2) have k: "k < n_z st"
    and s: "s = st\<lparr>m_observations := map_assign k v (m_observations st)\<rparr>"
    by (auto simp add: new_observation_def split: if_splits)
  from assms(1) have "ascending_keys (map_assign k v (m_observations st))"
    by (simp add: well_formed_def map_assign_ascending)
  moreover from assms(1) k
  have "\<forall>a\<in>set (map fst (map_assign k v (m_observations st))). a < n_z st"
    by (simp only: map_assign_keys) (simp add: well_formed_def)
  ultimately show ?thesis
    using assms(1) by (simp add: s well_formed_def)
qed

lemma from_inverse_shape:
  "v_size (from_inverse_v st v) = v_size v"
  "m_rows (from_inverse_m st M) = m_rows M" "m_cols (from_inverse_m st M) = m_cols M"
  by (simp_all add: from_inverse_v_def from_inverse_m_def unspecified_v_def unspecified_m_def)

lemma masked_kalman_update_well_formed:
  assumes "well_formed st" and "masked_kalman_update st = Inr s"
  shows "well_formed s"
proof -
  from assms(2) have s: "s = st\<lparr>base_x := update_state st,
      base_P := force_full_rank (n_x st) (force_symmetric (update_covariance st)),
      t_xx := transpose_m (update_covariance st), m_observations := []\<rparr>"
    by (auto simp add: masked_kalman_update_def Let_def)
  have "v_size (update_state st) = v_size (base_x st)"
    by (simp add: update_state_def from_inverse_shape add_assign_v_def)
  moreover have "m_rows (force_symmetric (update_covariance st)) = m_rows (base_P st)
      \<and> m_cols (force_symmetric (update_covariance st)) = m_cols (base_P st)"
    by (simp add: force_symmetric_def div_assign_m_def add_assign_m_def update_covariance_def
        from_inverse_shape sub_assign_m_def)
  ultimately show ?thesis
    using assms(1) by (simp add: s well_formed_def force_full_rank_dims ascending_keys_def)
qed

lemma initialize_state_well_formed:
  assumes "well_formed st" and "n_x st < 2 ^ 31" and "initialize_state st x0 P0 = Inr s"
  shows "well_formed s"
proof -
  from assms(3) have s: "s = st\<lparr>base_x := x0, base_P := P0\<rparr>"
    and dims: "v_size x0 = n_x st" "m_rows P0 = n_x st" "m_cols P0 = n_x st"
    by (auto simp add: initialize_state_def static_cast_int_small [OF assms(2)]
        split: if_splits)
  from assms(1) dims show ?thesis
    by (simp add: s well_formed_def)
qed

lemma set_covariance_well_formed:
  assumes "well_formed st" and "set_covariance st a b v = Inr s"
  shows "well_formed s"
proof -
  from assms(2) have s: "s = st\<lparr>base_P := set_coeff (base_P st) a b v\<rparr>"
    by (auto simp add: set_covariance_def split: if_splits)
  from assms(1) show ?thesis
    by (simp add: s well_formed_def set_coeff_def)
qed

end
